theory Spec2Isabelle
  imports Main "HOL-Library.Sublist" "HOL-Library.AList"
begin

section \<open>Wire constants\<close>

text \<open>
  The probe side of the Blackfire agent protocol (\<^verbatim>\<open>agent.py\<close>), read as Python 3
  runs it. Byte strings and decoded text are both values of type \<open>string\<close>: a list
  of 8-bit characters. The protocol's separators (newline, colon, comma, space,
  ampersand) are ASCII, and UTF-8 decoding and encoding leave ASCII text unchanged, so
  \<^verbatim>\<open>decode\<close>, \<^verbatim>\<open>bytes(..., ENCODING)\<close> and the helper \<^verbatim>\<open>_U\<close> (the identity in
  Python 3) do not appear as functions of their own. The string methods below are
  Python's on ASCII text.
\<close>

definition MAX_RECV_SIZE :: nat where
  "MAX_RECV_SIZE = 4096"

definition MAX_SEND_SIZE :: nat where
  "MAX_SEND_SIZE = 4096"

definition HEADER_MARKER :: string where
  "HEADER_MARKER = ''\<newline>''"

definition MARKER :: string where
  "MARKER = ''\<newline>\<newline>''"

section \<open>Python's string methods\<close>

text \<open>
  \<^verbatim>\<open>s.endswith(m)\<close>, \<^verbatim>\<open>s.startswith(m)\<close> and \<^verbatim>\<open>m in s\<close> (substring test).
\<close>

definition endswith :: "string \<Rightarrow> string \<Rightarrow> bool" where
  "endswith s m = suffix m s"

definition startswith :: "string \<Rightarrow> string \<Rightarrow> bool" where
  "startswith s m = prefix m s"

definition contains :: "string \<Rightarrow> string \<Rightarrow> bool" where
  "contains s m = sublist m s"

text \<open>
  \<^verbatim>\<open>s.strip()\<close> removes leading and trailing whitespace: for a Python 3 \<^verbatim>\<open>str\<close> the
  ASCII whitespace characters are tab, newline, vertical tab, form feed, carriage return,
  the four separators 0x1C to 0x1F, and space.
\<close>

definition isspace :: "char \<Rightarrow> bool" where
  "isspace c \<longleftrightarrow> (let n = (of_char c :: nat) in (9 \<le> n \<and> n \<le> 13) \<or> (28 \<le> n \<and> n \<le> 32))"

definition strip :: "string \<Rightarrow> string" where
  "strip s = rev (dropWhile isspace (rev (dropWhile isspace s)))"

text \<open>\<^verbatim>\<open>s.lower()\<close> on ASCII letters.\<close>

definition lower_char :: "char \<Rightarrow> char" where
  "lower_char c = (let n = (of_char c :: nat) in if 65 \<le> n \<and> n \<le> 90 then char_of (n + 32) else c)"

definition lower :: "string \<Rightarrow> string" where
  "lower s = map lower_char s"

text \<open>
  \<^verbatim>\<open>s.isdigit()\<close> (false on the empty string) and \<^verbatim>\<open>int(s)\<close> on a string of
  decimal digits.
\<close>

definition isdigit_char :: "char \<Rightarrow> bool" where
  "isdigit_char c \<longleftrightarrow> (let n = (of_char c :: nat) in 48 \<le> n \<and> n \<le> 57)"

definition isdigit :: "string \<Rightarrow> bool" where
  "isdigit s \<longleftrightarrow> s \<noteq> [] \<and> list_all isdigit_char s"

definition int_of_digits :: "string \<Rightarrow> int" where
  "int_of_digits s = foldl (\<lambda>a c. 10 * a + (int (of_char c) - 48)) 0 s"

text \<open>
  \<^verbatim>\<open>s.find(sub)\<close>: the index of the first occurrence, \<open>None\<close> for Python's \<open>-1\<close>;
  \<^verbatim>\<open>s.rfind(sub)\<close>: the index of the last occurrence.
\<close>

fun str_find :: "string \<Rightarrow> string \<Rightarrow> nat option" where
  "str_find [] sub = (if sub = [] then Some 0 else None)"
| "str_find (c # cs) sub =
     (if prefix sub (c # cs) then Some 0 else map_option Suc (str_find cs sub))"

definition str_rfind :: "string \<Rightarrow> string \<Rightarrow> nat option" where
  "str_rfind s sub =
     map_option (\<lambda>i. length s - length sub - i) (str_find (rev s) (rev sub))"

lemma str_find_bound: "str_find s sub = Some i \<Longrightarrow> i + length sub \<le> length s"
proof (induction s arbitrary: i)
  case Nil
  then show ?case by (simp split: if_splits)
next
  case (Cons c cs)
  show ?case
  proof (cases "prefix sub (c # cs)")
    case True
    with Cons.prems have "i = 0" by simp
    with prefix_length_le [OF True] show ?thesis by simp
  next
    case False
    with Cons.prems obtain j where "str_find cs sub = Some j" and "i = Suc j" by auto
    with Cons.IH show ?thesis by simp
  qed
qed

text \<open>
  \<^verbatim>\<open>s.split(sep)\<close>: cut at each occurrence of the separator, found from left to right
  without overlap; \<^verbatim>\<open>s.split(sep, 1)\<close> cuts at the first occurrence only and
  \<^verbatim>\<open>s.rsplit(sep, 1)\<close> at the last. Python rejects an empty separator; every call of
  \<^verbatim>\<open>agent.py\<close> passes a non-empty literal, and the model leaves the string whole there.
\<close>

function str_split :: "string \<Rightarrow> string \<Rightarrow> string list" where
  "str_split s sep =
     (if sep = [] then [s]
      else case str_find s sep of
             None \<Rightarrow> [s]
           | Some i \<Rightarrow> take i s # str_split (drop (i + length sep) s) sep)"
  by pat_completeness auto
termination
proof (relation "measure (\<lambda>(s, sep). length s)")
  show "wf (measure (\<lambda>(s, sep). length s))" by simp
next
  fix s sep :: string and i
  assume "sep \<noteq> []" and "str_find s sep = Some i"
  then have "0 < length sep" and "i + length sep \<le> length s"
    by (simp_all add: str_find_bound)
  then have "length s - (i + length sep) < length s"
    by arith
  then show "((drop (i + length sep) s, sep), (s, sep)) \<in> measure (\<lambda>(s, sep). length s)"
    by simp
qed

definition str_split1 :: "string \<Rightarrow> string \<Rightarrow> string list" where
  "str_split1 s sep =
     (case str_find s sep of
        None \<Rightarrow> [s]
      | Some i \<Rightarrow> [take i s, drop (i + length sep) s])"

definition str_rsplit1 :: "string \<Rightarrow> string \<Rightarrow> string list" where
  "str_rsplit1 s sep =
     (case str_rfind s sep of
        None \<Rightarrow> [s]
      | Some i \<Rightarrow> [take i s, drop (i + length sep) s])"

text \<open>\<^verbatim>\<open>str(n)\<close> for a non-negative integer: its decimal digits.\<close>

fun str_nat :: "nat \<Rightarrow> string" where
  "str_nat n =
     (if n < 10 then [char_of (48 + n)] else str_nat (n div 10) @ [char_of (48 + n mod 10)])"

section \<open>Python's dictionaries\<close>

text \<open>
  A \<^verbatim>\<open>dict\<close> keeps its keys in insertion order, so it is an association list:
  \<^verbatim>\<open>d.get(k)\<close>, \<^verbatim>\<open>d[k] = v\<close> (the value is replaced in place, a new key goes to the
  end), \<^verbatim>\<open>d.update(other)\<close>, \<^verbatim>\<open>dict(pairs)\<close>, and \<^verbatim>\<open>d[k].append(v)\<close> on a
  \<^verbatim>\<open>defaultdict(list)\<close>.
\<close>

type_synonym ('k, 'v) dict = "('k \<times> 'v) list"

definition dict_get :: "('k, 'v) dict \<Rightarrow> 'k \<Rightarrow> 'v option" where
  "dict_get d k = map_of d k"

definition dict_set :: "('k, 'v) dict \<Rightarrow> 'k \<Rightarrow> 'v \<Rightarrow> ('k, 'v) dict" where
  "dict_set d k v = AList.update k v d"

definition dict_update :: "('k, 'v) dict \<Rightarrow> ('k, 'v) dict \<Rightarrow> ('k, 'v) dict" where
  "dict_update d other = foldl (\<lambda>acc (k, v). dict_set acc k v) d other"

definition dict_of :: "('k \<times> 'v) list \<Rightarrow> ('k, 'v) dict" where
  "dict_of pairs = dict_update [] pairs"

definition dict_append :: "('k, 'v list) dict \<Rightarrow> 'k \<Rightarrow> 'v \<Rightarrow> ('k, 'v list) dict" where
  "dict_append d k v = map_default k [v] (\<lambda>vs. vs @ [v]) d"

section \<open>Errors\<close>

text \<open>
  Every exception the modelled code can raise. The built-in exceptions carry no message
  except \<open>KeyError\<close>, which carries the missing key. \<open>BlackfireApiException\<close> carries
  its message text.
\<close>

datatype error =
    ValueError
  | IndexError
  | TypeError
  | KeyError string
  | BlackfireApiException string
  | BlackfireAPMException string
  | BlackfireAPMStatusFalseException string

section \<open>The socket\<close>

text \<open>
  A socket is the script of what its calls will do. \<open>inbound\<close> lists the outcome of
  each successive \<^verbatim>\<open>recv(MAX_RECV_SIZE)\<close> call: the bytes it returns (no bytes when
  the peer has closed the connection) or the socket error it raises (a timeout, a reset).
  When the script is exhausted the peer has stalled and no timeout fires: the call never
  returns. \<open>send_faults\<close> lists the outcome of each successive \<^verbatim>\<open>sendall\<close> call
  (\<open>None\<close>: written; \<open>Some e\<close>: the socket error raised; an exhausted script writes),
  and \<open>outbound\<close> collects the chunks written.
\<close>

datatype read = Data string | SocketError string

record socket =
  inbound :: "read list"
  send_faults :: "string option list"
  outbound :: "string list"

section \<open>Connection.recv\<close>

definition contains_blackfireyaml_header :: "string \<Rightarrow> bool" where
  "contains_blackfireyaml_header recv_wnd = contains recv_wnd ''blackfire_yml=true''"

text \<open>
  The \<^verbatim>\<open>while (True)\<close> loop of \<^verbatim>\<open>recv\<close>, with the \<^verbatim>\<open>except\<close> clause that wraps
  every exception raised inside it. Each iteration consumes one outcome of the script;
  \<open>None\<close> is the loop that never returns.
\<close>

fun recv_loop :: "string \<Rightarrow> read list \<Rightarrow> ((error + string) \<times> read list) option" where
  "recv_loop result [] = None"
| "recv_loop result (SocketError e # rest) =
     Some (Inl (BlackfireApiException (''Agent recv data failed.['' @ e @ '']'')), rest)"
| "recv_loop result (Data chunk # rest) =
     (if length chunk = 0 then
        Some (Inl (BlackfireApiException
          (''Agent recv data failed.['' @ ''Agent closed the connection.'' @ '']'')), rest)
      else
        let result = result @ chunk in
        if contains_blackfireyaml_header result \<and> endswith result HEADER_MARKER then
          Some (Inr result, rest)
        else if endswith result MARKER then
          Some (Inr result, rest)
        else recv_loop result rest)"

definition recv :: "socket \<Rightarrow> ((error + string) \<times> socket) option" where
  "recv s = map_option (\<lambda>(r, rest). (r, s\<lparr>inbound := rest\<rparr>)) (recv_loop '''' (inbound s))"

text \<open>The two \<^verbatim>\<open>break\<close> conditions of the loop, as one predicate on the buffer.\<close>

definition frame_complete :: "string \<Rightarrow> bool" where
  "frame_complete buf \<longleftrightarrow>
     (contains_blackfireyaml_header buf \<and> endswith buf HEADER_MARKER) \<or> endswith buf MARKER"

section \<open>Connection.send\<close>

text \<open>One \<^verbatim>\<open>sendall\<close> call: \<open>Some e\<close> is the socket error it raises.\<close>

definition sendall :: "string \<Rightarrow> socket \<Rightarrow> string option \<times> socket" where
  "sendall chunk s =
     (case send_faults s of
        [] \<Rightarrow> (None, s\<lparr>outbound := outbound s @ [chunk]\<rparr>)
      | None # faults \<Rightarrow> (None, s\<lparr>send_faults := faults, outbound := outbound s @ [chunk]\<rparr>)
      | Some e # faults \<Rightarrow> (Some e, s\<lparr>send_faults := faults\<rparr>))"

text \<open>
  \<^verbatim>\<open>send\<close> writes the payload in chunks of at most \<open>MAX_SEND_SIZE\<close> bytes; the
  failure message carries the socket error and the payload that was left.
\<close>

function send :: "string \<Rightarrow> socket \<Rightarrow> error option \<times> socket" where
  "send payload s =
     (if payload = [] then (None, s)
      else case sendall (take MAX_SEND_SIZE payload) s of
             (Some e, s') \<Rightarrow>
               (Some (BlackfireApiException
                  (''Agent send data failed.['' @ e @ '']['' @ payload @ '']'')), s')
           | (None, s') \<Rightarrow> send (drop MAX_SEND_SIZE payload) s')"
  by pat_completeness auto
termination
  by (relation "measure (\<lambda>(payload, s). length payload)") (auto simp: MAX_SEND_SIZE_def)

section \<open>BlackfireRequest\<close>

record request =
  headers :: "(string, string) dict"
  data :: "string option"

text \<open>
  The constructor lower-cases every header name except the two reserved ones. Header
  values are the text that \<^verbatim>\<open>%s\<close> renders.
\<close>

definition BlackfireRequest :: "(string, string) dict \<Rightarrow> string option \<Rightarrow> request" where
  "BlackfireRequest hs d =
     \<lparr>headers =
        foldl (\<lambda>acc (k, v).
                 if k \<notin> set [''Blackfire-Query'', ''Blackfire-Probe'']
                 then dict_set acc (lower k) v
                 else dict_set acc k v) [] hs,
      data = d\<rparr>"

definition header_line :: "string \<times> string \<Rightarrow> string" where
  "header_line kv = fst kv @ '': '' @ snd kv @ ''\<newline>''"

definition BlackfireRequest_to_bytes :: "request \<Rightarrow> string" where
  "BlackfireRequest_to_bytes self =
     (case dict_get (headers self) ''file-format'' of
        Some v \<Rightarrow> ''file-format: '' @ v @ ''\<newline>''
      | None \<Rightarrow> []) @
     (case dict_get (headers self) ''Blackfire-Query'' of
        Some v \<Rightarrow> ''Blackfire-Query: '' @ v @ ''\<newline>''
      | None \<Rightarrow> []) @
     concat (map (\<lambda>kv. if fst kv \<in> set [''Blackfire-Query'', ''file-format''] then []
                         else header_line kv) (headers self)) @
     (if length (headers self) \<noteq> 0 then ''\<newline>'' else []) @
     (case data self of
        Some d \<Rightarrow> if d \<noteq> [] then d else []
      | None \<Rightarrow> [])"

text \<open>The \<^verbatim>\<open>for line in header_lines\<close> loop of \<^verbatim>\<open>from_bytes\<close>.\<close>

fun header_lines_loop :: "(string, string) dict \<Rightarrow> string list \<Rightarrow> (string, string) dict" where
  "header_lines_loop hs [] = hs"
| "header_lines_loop hs (line # lines) =
     (case str_find line '':'' of
        Some spos \<Rightarrow>
          header_lines_loop
            (dict_set hs (strip (take spos line)) (strip (drop (spos + 1) line))) lines
      | None \<Rightarrow> header_lines_loop hs lines)"

definition BlackfireRequest_from_bytes :: "request \<Rightarrow> string \<Rightarrow> error + request" where
  "BlackfireRequest_from_bytes self raw =
     (case str_split raw MARKER of
        [h, d1, d2] \<Rightarrow>
          Inr \<lparr>headers = header_lines_loop (headers self) (str_split h ''\<newline>''),
               data = Some (d1 @ ''\<newline>'' @ d2)\<rparr>
      | [h, d] \<Rightarrow>
          Inr \<lparr>headers = header_lines_loop (headers self) (str_split h ''\<newline>''),
               data = Some d\<rparr>
      | [h] \<Rightarrow>
          Inr \<lparr>headers = header_lines_loop (headers self) (str_split h ''\<newline>''),
               data = data self\<rparr>
      | _ \<Rightarrow> Inl (BlackfireApiException (''Invalid BlackfireRequest message. ['' @ raw @ '']'')))"

section \<open>BlackfireResponse\<close>

datatype status_code = OK | ERR

text \<open>
  \<open>status_val\<close> and \<open>raw_data\<close> are \<^verbatim>\<open>None\<close> in a new object, and the attribute
  \<open>status_val_dict\<close> does not exist before \<^verbatim>\<open>from_bytes\<close> has stored it.
\<close>

record response =
  status_code :: status_code
  status_val :: "string option"
  status_val_dict :: "(string, string) dict option"
  raw_data :: "string option"
  args :: "(string, string list) dict"

definition BlackfireResponse :: response where
  "BlackfireResponse =
     \<lparr>status_code = OK, status_val = None, status_val_dict = None, raw_data = None, args = []\<rparr>"

text \<open>
  The \<^verbatim>\<open>for line in lines[1:]\<close> loop: each line is cut at its first colon, and the
  two-name assignment raises \<open>ValueError\<close> when the cut gives one part only. The loop
  returns the argument mapping as it stands when the loop ends or raises.
\<close>

fun args_loop ::
  "(string, string list) dict \<Rightarrow> string list \<Rightarrow> (string, string list) dict \<times> error option"
where
  "args_loop acc [] = (acc, None)"
| "args_loop acc (line # lines) =
     (case str_split1 line '':'' of
        [resp_key, resp_val] \<Rightarrow> args_loop (dict_append acc (strip resp_key) (strip resp_val)) lines
      | _ \<Rightarrow> (acc, Some ValueError))"

text \<open>
  \<^verbatim>\<open>from_bytes\<close> mutates the response it is called on, so the model returns the object
  as the call leaves it together with the exception raised, if any. \<open>qsl\<close> is
  \<^verbatim>\<open>parse_qsl\<close>, imported from \<^verbatim>\<open>blackfire.utils\<close>.
\<close>

definition BlackfireResponse_from_bytes ::
  "(string \<Rightarrow> (string \<times> string) list) \<Rightarrow> response \<Rightarrow> string \<Rightarrow> response \<times> error option"
where
  "BlackfireResponse_from_bytes qsl self raw =
     (let self = self\<lparr>status_code := OK, raw_data := Some (strip raw)\<rparr> in
      case str_split (strip raw) ''\<newline>'' of
        [] \<Rightarrow> (self, Some IndexError)
      | line0 # lines \<Rightarrow>
          (case str_split line0 '':'' of
             [resp_type, resp_val] \<Rightarrow>
               let self = self\<lparr>status_val := Some (strip resp_val),
                                status_val_dict := Some (dict_of (qsl (strip resp_val)))\<rparr>;
                   self = (if strip resp_type = ''Blackfire-Error''
                           then self\<lparr>status_code := ERR\<rparr> else self);
                   (acc, raised) = args_loop (args self) lines
               in (self\<lparr>args := acc\<rparr>, raised)
           | _ \<Rightarrow> (self, Some ValueError)))"

section \<open>BlackfireAPMResponse\<close>

record apm_response =
  apm_args :: "(string, string list) dict"
  key_pages :: "(string, string) dict option list"
  apm_raw_data :: string
  update_config :: bool
  apm_status_val :: "string option"
  apm_status_val_dict :: "(string, string) dict option"

definition BlackfireAPMResponse :: apm_response where
  "BlackfireAPMResponse =
     \<lparr>apm_args = [], key_pages = [], apm_raw_data = [], update_config = False,
      apm_status_val = None, apm_status_val_dict = None\<rparr>"

text \<open>
  The \<^verbatim>\<open>for line in lines[1:]\<close> loop of the APM dialect; the first argument is the local
  variable \<^verbatim>\<open>key_page\<close>.
\<close>

fun apm_lines_loop ::
  "(string, string) dict option \<Rightarrow> apm_response \<Rightarrow> string list \<Rightarrow> apm_response \<times> error option"
where
  "apm_lines_loop key_page self [] = (self, None)"
| "apm_lines_loop key_page self (line # lines) =
     (let line = strip line in
      if startswith line ''key-page('' then apm_lines_loop (Some []) self lines
      else if startswith line '')'' then
        apm_lines_loop None (self\<lparr>key_pages := key_pages self @ [key_page]\<rparr>) lines
      else
        case str_split1 line '':'' of
          [resp_key, resp_val] \<Rightarrow>
            (case key_page of
               Some kp \<Rightarrow>
                 apm_lines_loop (Some (dict_set kp (strip resp_key) (strip resp_val))) self lines
             | None \<Rightarrow>
                 apm_lines_loop None
                   (self\<lparr>apm_args :=
                      dict_append (apm_args self) (strip resp_key) (strip resp_val)\<rparr>) lines)
        | _ \<Rightarrow> (self, Some ValueError))"

definition BlackfireAPMResponse_from_bytes ::
  "(string \<Rightarrow> (string \<times> string) list) \<Rightarrow> apm_response \<Rightarrow> string
     \<Rightarrow> apm_response \<times> error option"
where
  "BlackfireAPMResponse_from_bytes qsl self raw =
     (let self = self\<lparr>apm_raw_data := strip raw\<rparr> in
      case str_split (strip raw) ''\<newline>'' of
        [] \<Rightarrow> (self, Some IndexError)
      | line0 # lines \<Rightarrow>
          (case str_split line0 '':'' of
             resp_type # resp_val # _ \<Rightarrow>
               if resp_type = ''Blackfire-Error'' then
                 (self, Some (BlackfireAPMException
                    (''Agent could not send APM trace. reason='' @ resp_val)))
               else
                 let d = dict_of (qsl (strip resp_val));
                     self = self\<lparr>apm_status_val := Some (strip resp_val),
                                  apm_status_val_dict := Some d\<rparr>
                 in (case dict_get d ''success'' of
                       None \<Rightarrow> (self, Some (KeyError ''success''))
                     | Some success \<Rightarrow>
                         if contains success ''false'' then
                           (self, Some (BlackfireAPMStatusFalseException
                              (case dict_get d ''error'' of
                                 Some e \<Rightarrow> e
                               | None \<Rightarrow> ''status=False and no error received from Agent.'')))
                         else
                           apm_lines_loop None
                             (self\<lparr>update_config :=
                                (case dict_get d ''update_config'' of
                                   Some v \<Rightarrow> v \<noteq> ''false''
                                 | None \<Rightarrow> False)\<rparr>) lines)
           | _ \<Rightarrow> (self, Some IndexError)))"

section \<open>Accessors of BlackfireResponseBase\<close>

text \<open>
  The accessors read the argument mapping under a key that the dialect fixes: the class
  attributes of \<^verbatim>\<open>BlackfireResponseBase\<close>, which \<^verbatim>\<open>BlackfireResponse\<close> inherits, and the
  two that \<^verbatim>\<open>BlackfireAPMResponse\<close> overrides.
\<close>

definition TIMESPAN_KEY :: string where
  "TIMESPAN_KEY = ''Blackfire-Timespan''"

definition FN_ARGS_KEY :: string where
  "FN_ARGS_KEY = ''Blackfire-Fn-Args''"

definition CONSTANTS_KEY :: string where
  "CONSTANTS_KEY = ''Blackfire-Const''"

definition APM_TIMESPAN_KEY :: string where
  "APM_TIMESPAN_KEY = ''timespan''"

definition APM_FN_ARGS_KEY :: string where
  "APM_FN_ARGS_KEY = ''fn-args''"

text \<open>\<^verbatim>\<open>self.args.get(key, [])\<close>.\<close>

definition args_get :: "(string, string list) dict \<Rightarrow> string \<Rightarrow> string list" where
  "args_get a key = (case dict_get a key of Some vs \<Rightarrow> vs | None \<Rightarrow> [])"

text \<open>
  \<^verbatim>\<open>get_timespan_selectors\<close>: the result is the pair of the sets stored under \<^verbatim>\<open>'^'\<close>
  and under \<^verbatim>\<open>'='\<close>. Reading \<^verbatim>\<open>ts_sel[0]\<close> of an empty selector raises \<open>IndexError\<close>.
\<close>

fun timespan_loop ::
  "string set \<times> string set \<Rightarrow> string list \<Rightarrow> error + string set \<times> string set"
where
  "timespan_loop result [] = Inr result"
| "timespan_loop result (ts_sel # rest) =
     (case ts_sel of
        [] \<Rightarrow> Inl IndexError
      | c # sel \<Rightarrow>
          if c \<notin> set [CHR ''^'', CHR ''=''] then timespan_loop result rest
          else if c = CHR ''^'' then timespan_loop (insert sel (fst result), snd result) rest
          else timespan_loop (fst result, insert sel (snd result)) rest)"

definition get_timespan_selectors ::
  "string \<Rightarrow> (string, string list) dict \<Rightarrow> error + string set \<times> string set"
where
  "get_timespan_selectors key a = timespan_loop ({}, {}) (args_get a key)"

definition get_constants :: "string \<Rightarrow> (string, string list) dict \<Rightarrow> string list" where
  "get_constants key a = args_get a key"

text \<open>
  \<^verbatim>\<open>get_instrumented_funcs\<close>: an argument identifier is an integer or a string. The
  two-name assignment from \<^verbatim>\<open>fn_arg.rsplit(" ", 1)\<close> raises \<open>ValueError\<close> when the
  directive has no space.
\<close>

datatype arg_id = IntArg int | StrArg string

definition parse_arg_ids :: "string \<Rightarrow> arg_id list" where
  "parse_arg_ids arg_ids_s =
     map (\<lambda>arg_id. if isdigit arg_id then IntArg (int_of_digits arg_id) else StrArg arg_id)
       (str_split (strip arg_ids_s) '','')"

fun fn_args_loop ::
  "(string, arg_id list) dict \<Rightarrow> string list \<Rightarrow> error + (string, arg_id list) dict"
where
  "fn_args_loop result [] = Inr result"
| "fn_args_loop result (fn_arg # rest) =
     (case str_rsplit1 fn_arg '' '' of
        [fn_name, arg_ids_s] \<Rightarrow>
          if dict_get result (strip fn_name) \<noteq> None then fn_args_loop result rest
          else fn_args_loop (dict_set result (strip fn_name) (parse_arg_ids arg_ids_s)) rest
      | _ \<Rightarrow> Inl ValueError)"

definition get_instrumented_funcs ::
  "string \<Rightarrow> (string, string list) dict \<Rightarrow> error + (string, arg_id list) dict"
where
  "get_instrumented_funcs key a = fn_args_loop [] (args_get a key)"

section \<open>The query-string parser\<close>

text \<open>
  The parsers above take \<^verbatim>\<open>parse_qsl\<close> as the parameter \<open>qsl\<close>. The function below
  stands for it at concrete inputs; these are its helpers: the value of a hexadecimal
  digit, the decoding of \<^verbatim>\<open>%XX\<close> into the byte with that code, and \<^verbatim>\<open>+\<close> read as a
  space.
\<close>

definition hexval :: "char \<Rightarrow> nat option" where
  "hexval c =
     (let n = (of_char c :: nat) in
      if 48 \<le> n \<and> n \<le> 57 then Some (n - 48)
      else if 65 \<le> n \<and> n \<le> 70 then Some (n - 55)
      else if 97 \<le> n \<and> n \<le> 102 then Some (n - 87)
      else None)"

fun unquote :: "string \<Rightarrow> string" where
  "unquote (c # h1 # h2 # cs) =
     (if c = CHR ''%'' then
        (case (hexval h1, hexval h2) of
           (Some a, Some b) \<Rightarrow> char_of (16 * a + b) # unquote cs
         | _ \<Rightarrow> c # unquote (h1 # h2 # cs))
      else c # unquote (h1 # h2 # cs))"
| "unquote cs = cs"

definition plus_to_space :: "string \<Rightarrow> string" where
  "plus_to_space s = map (\<lambda>c. if c = CHR ''+'' then CHR '' '' else c) s"

text \<open>
  Modelled from the spec: \<^verbatim>\<open>parse_qsl\<close> of \<^verbatim>\<open>blackfire.utils\<close> is not among the
  sources. The spec has the status text in \<^verbatim>\<open>key=value&key=value\<close> query-string form,
  parsed into a dict, and \<^verbatim>\<open>error=bad+signature\<close> read as the message
  \<^verbatim>\<open>bad signature\<close>: fields are cut at \<^verbatim>\<open>&\<close>, each at its first \<^verbatim>\<open>=\<close>, and a
  field with no \<^verbatim>\<open>=\<close> or with an empty value is dropped.
\<close>

definition parse_qsl :: "string \<Rightarrow> (string \<times> string) list" where
  "parse_qsl qs =
     concat (map (\<lambda>name_value.
                    case str_split1 name_value ''='' of
                      [name, val] \<Rightarrow>
                        if val \<noteq> [] then
                          [(unquote (plus_to_space name), unquote (plus_to_space val))]
                        else []
                    | _ \<Rightarrow> [])
             (str_split qs ''&''))"

section \<open>The handshake\<close>

text \<open>
  The session configuration, read through \<^verbatim>\<open>config.args\<close>, \<^verbatim>\<open>config.challenge_raw\<close>,
  \<^verbatim>\<open>config.signature\<close>, \<^verbatim>\<open>config.args_raw\<close> and \<^verbatim>\<open>config.is_blackfireyml_asked()\<close>.
\<close>

record config =
  config_args :: "(string, string) dict"
  challenge_raw :: string
  signature :: string
  args_raw :: string
  is_blackfireyml_asked :: bool

text \<open>
  What the handshake reads from outside the connection: \<^verbatim>\<open>sys.hexversion\<close>, the result
  of \<^verbatim>\<open>read_blackfireyml_content()\<close>, and the two environment variables.
\<close>

record environment =
  hexversion :: nat
  blackfireyml_content :: "string option"
  BLACKFIRE_SERVER_ID :: "string option"
  BLACKFIRE_SERVER_TOKEN :: "string option"

record connection =
  sock :: socket
  agent_response :: "response option"

text \<open>
  \<^verbatim>\<open>int(s)\<close> on a string: surrounding whitespace, an optional sign, and decimal digits
  in groups separated by single underscores; anything else raises \<open>ValueError\<close>.
\<close>

definition py_int :: "string \<Rightarrow> error + int" where
  "py_int s =
     (let t = strip s;
          neg = (t \<noteq> [] \<and> hd t = CHR ''-'');
          ds = (if t \<noteq> [] \<and> hd t \<in> set [CHR ''-'', CHR ''+''] then tl t else t)
      in if list_all isdigit (str_split ds ''_'')
         then Inr ((if neg then - 1 else 1) * int_of_digits (filter (\<lambda>c. c \<noteq> CHR ''_'') ds))
         else Inl ValueError)"

text \<open>\<^verbatim>\<open>bool(int(config.args.get(name, default)))\<close>.\<close>

definition flag :: "config \<Rightarrow> string \<Rightarrow> string \<Rightarrow> error + bool" where
  "flag cfg name dflt =
     (case py_int (case dict_get (config_args cfg) name of Some v \<Rightarrow> v | None \<Rightarrow> dflt) of
        Inl e \<Rightarrow> Inl e
      | Inr n \<Rightarrow> Inr (n \<noteq> 0))"

text \<open>
  The first part of \<^verbatim>\<open>_write_prolog\<close>: the \<^verbatim>\<open>Blackfire-Probe\<close> header value and the
  configuration payload, in the order in which the source reads the flags.
\<close>

definition probe_header :: "config \<Rightarrow> environment \<Rightarrow> error + string \<times> string option" where
  "probe_header cfg env =
     (case flag cfg ''flag_yml'' ''1'' of
        Inl e \<Rightarrow> Inl e
      | Inr blackfire_yml \<Rightarrow>
          let blackfire_yml_content = (if blackfire_yml then blackfireyml_content env else None);
              h = ''python-'' @ str_nat (hexversion env) @ '', config''
          in (case flag cfg ''flag_timespan'' ''0'' of
                Inl e \<Rightarrow> Inl e
              | Inr recv_timespan \<Rightarrow>
                  let h = (if recv_timespan then h @ '', timespan'' else h);
                      h = (if blackfire_yml_content \<noteq> None \<and> blackfire_yml_content \<noteq> Some []
                           then h @ '', blackfire_yml'' else h);
                      h = (if is_blackfireyml_asked cfg then h @ '', noop'' else h)
                  in (case flag cfg ''no_pruning'' ''0'' of
                        Inl e \<Rightarrow> Inl e
                      | Inr no_pruning \<Rightarrow>
                          let h = (if no_pruning then h @ '', no_pruning'' else h)
                          in (case flag cfg ''no_anon'' ''0'' of
                                Inl e \<Rightarrow> Inl e
                              | Inr no_anon \<Rightarrow>
                                  Inr (if no_anon then h @ '', no_anon'' else h,
                                       blackfire_yml_content)))))"

definition hello_headers :: "config \<Rightarrow> environment \<Rightarrow> string \<Rightarrow> (string, string) dict" where
  "hello_headers cfg env bf_probe_header =
     (let hs = [(''Blackfire-Query'',
                 challenge_raw cfg @ ''&signature='' @ signature cfg @ ''&'' @ args_raw cfg),
                (''Blackfire-Probe'', bf_probe_header)]
      in case (BLACKFIRE_SERVER_ID env, BLACKFIRE_SERVER_TOKEN env) of
           (Some bf_server_id, Some bf_server_token) \<Rightarrow>
             if bf_server_id \<noteq> [] \<and> bf_server_token \<noteq> []
             then dict_set hs ''Blackfire-Auth'' (bf_server_id @ '':'' @ bf_server_token)
             else hs
         | _ \<Rightarrow> hs)"

text \<open>
  \<^verbatim>\<open>BlackfireResponse.__repr__\<close>, which the two protocol errors of the handshake render
  into their message (strings inside the mapping are quoted without escapes).
\<close>

fun join :: "string \<Rightarrow> string list \<Rightarrow> string" where
  "join sep [] = []"
| "join sep [x] = x"
| "join sep (x # y # ys) = x @ sep @ join sep (y # ys)"

definition quoted :: "string \<Rightarrow> string" where
  "quoted s = [CHR 0x27] @ s @ [CHR 0x27]"

definition BlackfireResponse_repr :: "response \<Rightarrow> string" where
  "BlackfireResponse_repr self =
     ''status_code='' @ (case status_code self of OK \<Rightarrow> ''0'' | ERR \<Rightarrow> ''1'') @
     '', args=defaultdict(<class '' @ quoted ''list'' @ ''>, {'' @
     join '', '' (map (\<lambda>kv. quoted (fst kv) @ '': ['' @ join '', '' (map quoted (snd kv)) @ '']'')
                   (args self)) @
     ''}), status_val='' @ (case status_val self of Some v \<Rightarrow> v | None \<Rightarrow> ''None'')"

text \<open>
  \<^verbatim>\<open>_write_prolog\<close>. The result is the connection as the call leaves it and the
  exception raised, if any; \<open>None\<close> when a \<^verbatim>\<open>recv\<close> never returns. The calls to the
  logger change nothing and are left out. \<^verbatim>\<open>len(blackfire_yml_content)\<close> raises
  \<open>TypeError\<close> when no payload was read.
\<close>

definition write_prolog ::
  "(string \<Rightarrow> (string \<times> string) list) \<Rightarrow> config \<Rightarrow> environment \<Rightarrow> connection
     \<Rightarrow> (connection \<times> error option) option"
where
  "write_prolog qsl cfg env self =
     (case probe_header cfg env of
        Inl e \<Rightarrow> Some (self, Some e)
      | Inr (bf_probe_header, blackfire_yml_content) \<Rightarrow>
     (case send (BlackfireRequest_to_bytes
                   (BlackfireRequest (hello_headers cfg env bf_probe_header) None)) (sock self) of
        (Some e, s1) \<Rightarrow> Some (self\<lparr>sock := s1\<rparr>, Some e)
      | (None, s1) \<Rightarrow>
     (case recv s1 of
        None \<Rightarrow> None
      | Some (Inl e, s2) \<Rightarrow> Some (self\<lparr>sock := s2\<rparr>, Some e)
      | Some (Inr response_raw, s2) \<Rightarrow>
     (case BlackfireResponse_from_bytes qsl BlackfireResponse response_raw of
        (r1, Some e) \<Rightarrow> Some (self\<lparr>sock := s2\<rparr>, Some e)
      | (r1, None) \<Rightarrow>
          let self = self\<lparr>sock := s2, agent_response := Some r1\<rparr> in
          if status_code r1 \<noteq> OK then
            Some (self, Some (BlackfireApiException
              (''Invalid response received from Agent. ['' @ BlackfireResponse_repr r1 @ '']'')))
          else if (case status_val_dict r1 of Some d \<Rightarrow> dict_get d ''blackfire_yml'' | None \<Rightarrow> None)
                  \<noteq> Some ''true''
          then Some (self, None)
          else
     (case blackfire_yml_content of
        None \<Rightarrow> Some (self, Some TypeError)
      | Some content \<Rightarrow>
     (case send (BlackfireRequest_to_bytes
                   (BlackfireRequest [(''Blackfire-Yaml-Size'', str_nat (length content))]
                      (Some content))) s2 of
        (Some e, s3) \<Rightarrow> Some (self\<lparr>sock := s3\<rparr>, Some e)
      | (None, s3) \<Rightarrow>
     (case recv s3 of
        None \<Rightarrow> None
      | Some (Inl e, s4) \<Rightarrow> Some (self\<lparr>sock := s4\<rparr>, Some e)
      | Some (Inr response_raw2, s4) \<Rightarrow>
     (case BlackfireResponse_from_bytes qsl BlackfireResponse response_raw2 of
        (r2, Some e) \<Rightarrow> Some (self\<lparr>sock := s4\<rparr>, Some e)
      | (r2, None) \<Rightarrow>
          if status_code r2 \<noteq> OK then
            Some (self\<lparr>sock := s4\<rparr>, Some (BlackfireApiException
              (''Invalid response received from Agent to blackfire_yml request. ['' @
               BlackfireResponse_repr r2 @ '']'')))
          else
            Some (self\<lparr>sock := s4,
                       agent_response := Some (r1\<lparr>args := dict_update (args r1) (args r2)\<rparr>)\<rparr>,
                  None)))))))))"

section \<open>A function-arguments directive, as the specification reads it\<close>

text \<open>
  The specification cuts a directive into a function-name part and an argument-id-list
  part; the cut is taken at the last space character. These are the two parts, and the
  entry the directive stands for: the stripped function name with the parsed argument
  identifiers. They are what \<^verbatim>\<open>get_instrumented_funcs\<close> is compared with.
\<close>

definition before_last_space :: "string \<Rightarrow> string" where
  "before_last_space v = rev (tl (dropWhile (\<lambda>c. c \<noteq> CHR '' '') (rev v)))"

definition after_last_space :: "string \<Rightarrow> string" where
  "after_last_space v = rev (takeWhile (\<lambda>c. c \<noteq> CHR '' '') (rev v))"

definition spec_directive :: "string \<Rightarrow> string \<times> arg_id list" where
  "spec_directive v = (strip (before_last_space v), parse_arg_ids (after_last_space v))"

section \<open>Properties of recv\<close>

lemma recv_loop_Data:
  "chunk \<noteq> [] \<Longrightarrow>
   recv_loop acc (Data chunk # rest) =
     (if frame_complete (acc @ chunk) then Some (Inr (acc @ chunk), rest)
      else recv_loop (acc @ chunk) rest)"
  by (simp add: frame_complete_def Let_def)

declare recv_loop.simps(3) [simp del]

lemma recv_loop_empty_read:
  "recv_loop acc (Data [] # rest) =
     Some (Inl (BlackfireApiException
       ''Agent recv data failed.[Agent closed the connection.]''), rest)"
  by (simp add: recv_loop.simps(3))

lemma recv_loop_reaches:
  assumes "cs \<noteq> []" and "[] \<notin> set cs"
    and "\<forall>k. 0 < k \<and> k < length cs \<longrightarrow> \<not> frame_complete (acc @ concat (take k cs))"
    and "frame_complete (acc @ concat cs)"
  shows "recv_loop acc (map Data cs @ rest) = Some (Inr (acc @ concat cs), rest)"
  using assms
proof (induction cs arbitrary: acc)
  case Nil
  then show ?case by simp
next
  case (Cons c cs)
  from Cons.prems(2) have c: "c \<noteq> []" and cs: "[] \<notin> set cs" by auto
  show ?case
  proof (cases "cs = []")
    case True
    with Cons.prems(4) c show ?thesis by (simp add: recv_loop_Data)
  next
    case False
    from Cons.prems(3) [rule_format, of 1] False
    have nc: "\<not> frame_complete (acc @ c)" by simp
    have later: "\<forall>k. 0 < k \<and> k < length cs \<longrightarrow>
        \<not> frame_complete ((acc @ c) @ concat (take k cs))"
    proof (intro allI impI)
      fix k assume "0 < k \<and> k < length cs"
      with Cons.prems(3) [rule_format, of "Suc k"] show
        "\<not> frame_complete ((acc @ c) @ concat (take k cs))" by simp
    qed
    from Cons.prems(4) have "frame_complete ((acc @ c) @ concat cs)" by simp
    from Cons.IH [OF False cs later this] c nc show ?thesis
      by (simp add: recv_loop_Data)
  qed
qed

lemma recv_loop_closed:
  assumes "[] \<notin> set cs"
    and "\<forall>k. 0 < k \<and> k \<le> length cs \<longrightarrow> \<not> frame_complete (acc @ concat (take k cs))"
  shows "recv_loop acc (map Data cs @ Data [] # rest) =
     Some (Inl (BlackfireApiException
       ''Agent recv data failed.[Agent closed the connection.]''), rest)"
  using assms
proof (induction cs arbitrary: acc)
  case Nil
  then show ?case by (simp add: recv_loop_empty_read)
next
  case (Cons c cs)
  from Cons.prems(1) have c: "c \<noteq> []" and cs: "[] \<notin> set cs" by auto
  from Cons.prems(2) [rule_format, of 1]
  have nc: "\<not> frame_complete (acc @ c)" by simp
  have later: "\<forall>k. 0 < k \<and> k \<le> length cs \<longrightarrow>
      \<not> frame_complete ((acc @ c) @ concat (take k cs))"
  proof (intro allI impI)
    fix k assume "0 < k \<and> k \<le> length cs"
    with Cons.prems(2) [rule_format, of "Suc k"] show
      "\<not> frame_complete ((acc @ c) @ concat (take k cs))" by simp
  qed
  from Cons.IH [OF cs later] c nc show ?case
    by (simp add: recv_loop_Data)
qed

lemma recv_loop_returns_complete:
  "recv_loop acc rx = Some (Inr buf, rest) \<Longrightarrow> frame_complete buf"
proof (induction acc rx rule: recv_loop.induct)
  case (1 result)
  then show ?case by simp
next
  case (2 result e rest)
  then show ?case by simp
next
  case (3 result chunk rest')
  show ?case
  proof (cases "chunk = []")
    case True
    with 3 show ?thesis by (simp add: recv_loop_empty_read)
  next
    case False
    with 3 show ?thesis
      by (auto simp: recv_loop_Data frame_complete_def split: if_splits)
  qed
qed

section \<open>The claims about recv\<close>

lemma frame_complete_newline: "frame_complete buf \<Longrightarrow> CHR 0x0A \<in> set buf"
  by (auto simp: frame_complete_def endswith_def HEADER_MARKER_def MARKER_def suffix_def)

lemma frame_complete_ends: "frame_complete buf \<Longrightarrow> buf \<noteq> [] \<and> endswith buf HEADER_MARKER"
  by (auto simp: frame_complete_def endswith_def HEADER_MARKER_def MARKER_def suffix_def)

lemma recv_unfold:
  "recv s = map_option (\<lambda>(r, rest). (r, s\<lparr>inbound := rest\<rparr>)) (recv_loop [] (inbound s))"
  by (simp add: recv_def)

lemma proper_prefix_incomplete:
  assumes "p @ q = ''blackfire_yml=true\<newline>''" and "q \<noteq> []"
  shows "\<not> frame_complete p"
proof
  assume "frame_complete p"
  then have nl: "CHR 0x0A \<in> set p" by (rule frame_complete_newline)
  from assms(2) have "q = butlast q @ [last q]" by simp
  with assms(1) have "(p @ butlast q) @ [last q] = ''blackfire_yml=true'' @ ''\<newline>''"
    by (metis append_assoc append_Nil append_Cons)
  then have "p @ butlast q = ''blackfire_yml=true''"
    by (simp only: append1_eq_conv)
  then have "set p \<subseteq> set ''blackfire_yml=true''"
    by (metis set_append Un_upper1)
  with nl show False by auto
qed

text \<open>
  Claim C2. Whenever the reads so far, none of them empty and none of them ending the loop
  earlier, bring the buffer to contain \<^verbatim>\<open>blackfire_yml=true\<close> and to end with the
  header terminator, \<^verbatim>\<open>recv\<close> returns the buffer at that point: the full-frame marker
  is not needed. In particular, when the stream delivers exactly the bytes
  \<^verbatim>\<open>blackfire_yml=true\<close> and a newline, in whatever chunks, and then stalls,
  \<^verbatim>\<open>recv\<close> returns those bytes.
\<close>

theorem recv_header_only_frame:
  "(cs \<noteq> [] \<and> [] \<notin> set cs
      \<and> (\<forall>k. 0 < k \<and> k < length cs \<longrightarrow> \<not> frame_complete (concat (take k cs)))
      \<and> contains_blackfireyaml_header (concat cs) \<and> endswith (concat cs) HEADER_MARKER
      \<and> inbound s = map Data cs @ rest
    \<longrightarrow> recv s = Some (Inr (concat cs), s\<lparr>inbound := rest\<rparr>))
   \<and> (cs \<noteq> [] \<and> [] \<notin> set cs \<and> concat cs = ''blackfire_yml=true\<newline>''
      \<and> inbound s = map Data cs
    \<longrightarrow> recv s = Some (Inr ''blackfire_yml=true\<newline>'', s\<lparr>inbound := []\<rparr>))"
proof (intro conjI impI)
  assume a: "cs \<noteq> [] \<and> [] \<notin> set cs
      \<and> (\<forall>k. 0 < k \<and> k < length cs \<longrightarrow> \<not> frame_complete (concat (take k cs)))
      \<and> contains_blackfireyaml_header (concat cs) \<and> endswith (concat cs) HEADER_MARKER
      \<and> inbound s = map Data cs @ rest"
  then have "frame_complete ([] @ concat cs)" by (simp add: frame_complete_def)
  with a have "recv_loop [] (map Data cs @ rest) = Some (Inr ([] @ concat cs), rest)"
    by (intro recv_loop_reaches) simp_all
  with a show "recv s = Some (Inr (concat cs), s\<lparr>inbound := rest\<rparr>)"
    by (simp add: recv_unfold)
next
  assume b: "cs \<noteq> [] \<and> [] \<notin> set cs \<and> concat cs = ''blackfire_yml=true\<newline>''
      \<and> inbound s = map Data cs"
  have full: "frame_complete ''blackfire_yml=true\<newline>''"
    by code_simp
  have early: "\<forall>k. 0 < k \<and> k < length cs \<longrightarrow> \<not> frame_complete ([] @ concat (take k cs))"
  proof (intro allI impI)
    fix k assume k: "0 < k \<and> k < length cs"
    have split: "concat (take k cs) @ concat (drop k cs) = ''blackfire_yml=true\<newline>''"
      using b by (metis append_take_drop_id concat_append)
    from k have "drop k cs \<noteq> []" by simp
    then obtain c where "c \<in> set (drop k cs)" by (cases "drop k cs") auto
    with b have "c \<noteq> []" and "c \<in> set (drop k cs)" by (auto dest: in_set_dropD)
    then have "concat (drop k cs) \<noteq> []" by auto
    with split show "\<not> frame_complete ([] @ concat (take k cs))"
      by (simp add: proper_prefix_incomplete)
  qed
  from b full have "frame_complete ([] @ concat cs)" by simp
  with b early have "recv_loop [] (map Data cs @ []) = Some (Inr ([] @ concat cs), [])"
    by (intro recv_loop_reaches) simp_all
  with b show "recv s = Some (Inr ''blackfire_yml=true\<newline>'', s\<lparr>inbound := []\<rparr>)"
    by (simp add: recv_unfold)
qed

theorem recv_header_only_frame_witness:
  "recv \<lparr>inbound = [Data ''Blackfire-Response: blackfire_yml=true&a=1\<newline>'', Data ''x''],
         send_faults = [], outbound = []\<rparr>
     = Some (Inr ''Blackfire-Response: blackfire_yml=true&a=1\<newline>'',
             \<lparr>inbound = [Data ''x''], send_faults = [], outbound = []\<rparr>)
   \<and> recv \<lparr>inbound = [Data ''blackfire_'', Data ''yml=true\<newline>''], send_faults = [], outbound = []\<rparr>
     = Some (Inr ''blackfire_yml=true\<newline>'', \<lparr>inbound = [], send_faults = [], outbound = []\<rparr>)"
proof -
  let ?s1 = "\<lparr>inbound = [Data ''Blackfire-Response: blackfire_yml=true&a=1\<newline>'', Data ''x''],
         send_faults = [], outbound = []\<rparr>"
  let ?s2 = "\<lparr>inbound = [Data ''blackfire_'', Data ''yml=true\<newline>''], send_faults = [], outbound = []\<rparr>"
  have h1: "contains_blackfireyaml_header (concat [''Blackfire-Response: blackfire_yml=true&a=1\<newline>''])"
    by code_simp
  have h2: "endswith (concat [''Blackfire-Response: blackfire_yml=true&a=1\<newline>'']) HEADER_MARKER"
    by code_simp
  from h1 h2 recv_header_only_frame [of "[''Blackfire-Response: blackfire_yml=true&a=1\<newline>'']" ?s1 "[Data ''x'']"]
  have a: "recv ?s1 = Some (Inr ''Blackfire-Response: blackfire_yml=true&a=1\<newline>'',
             \<lparr>inbound = [Data ''x''], send_faults = [], outbound = []\<rparr>)"
    by simp
  from recv_header_only_frame [of "[''blackfire_'', ''yml=true\<newline>'']" ?s2]
  have b: "recv ?s2 = Some (Inr ''blackfire_yml=true\<newline>'', \<lparr>inbound = [], send_faults = [], outbound = []\<rparr>)"
    by simp
  from a b show ?thesis by simp
qed

text \<open>
  Claim C3. A read of zero bytes that comes before either termination condition has held
  makes \<^verbatim>\<open>recv\<close> raise the receive error. Whatever \<^verbatim>\<open>recv\<close> returns is not
  empty and ends with a terminating marker: with the full-frame marker, or with the
  header terminator in a buffer that holds \<^verbatim>\<open>blackfire_yml=true\<close>.
\<close>

theorem recv_zero_length_read:
  "([] \<notin> set cs
      \<and> (\<forall>k. 0 < k \<and> k \<le> length cs \<longrightarrow> \<not> frame_complete (concat (take k cs)))
      \<and> inbound s = map Data cs @ Data [] # rest
    \<longrightarrow> recv s = Some (Inl (BlackfireApiException
                 ''Agent recv data failed.[Agent closed the connection.]''),
               s\<lparr>inbound := rest\<rparr>))
   \<and> (recv s = Some (Inr buf, s')
    \<longrightarrow> buf \<noteq> [] \<and> endswith buf HEADER_MARKER
        \<and> (endswith buf MARKER \<or> contains_blackfireyaml_header buf))"
proof (intro conjI impI)
  assume a: "[] \<notin> set cs
      \<and> (\<forall>k. 0 < k \<and> k \<le> length cs \<longrightarrow> \<not> frame_complete (concat (take k cs)))
      \<and> inbound s = map Data cs @ Data [] # rest"
  then have "recv_loop [] (map Data cs @ Data [] # rest) =
     Some (Inl (BlackfireApiException
       ''Agent recv data failed.[Agent closed the connection.]''), rest)"
    by (intro recv_loop_closed) simp_all
  with a show "recv s = Some (Inl (BlackfireApiException
                 ''Agent recv data failed.[Agent closed the connection.]''),
               s\<lparr>inbound := rest\<rparr>)"
    by (simp add: recv_unfold)
next
  assume r: "recv s = Some (Inr buf, s')"
  then obtain rest where "recv_loop [] (inbound s) = Some (Inr buf, rest)"
    by (auto simp: recv_unfold)
  then have fc: "frame_complete buf" by (rule recv_loop_returns_complete)
  then show "buf \<noteq> []" by (simp add: frame_complete_ends)
  from fc show "endswith buf HEADER_MARKER" by (simp add: frame_complete_ends)
  from fc show "endswith buf MARKER \<or> contains_blackfireyaml_header buf"
    by (auto simp: frame_complete_def)
qed

theorem recv_zero_length_read_witness:
  "recv \<lparr>inbound = [Data ''Blackfire-Response: ok'', Data [], Data ''\<newline>\<newline>''],
         send_faults = [], outbound = []\<rparr>
     = Some (Inl (BlackfireApiException ''Agent recv data failed.[Agent closed the connection.]''),
             \<lparr>inbound = [Data ''\<newline>\<newline>''], send_faults = [], outbound = []\<rparr>)
   \<and> recv \<lparr>inbound = [Data ''Blackfire-Response: ok\<newline>'', Data ''\<newline>''],
         send_faults = [], outbound = []\<rparr>
     = Some (Inr ''Blackfire-Response: ok\<newline>\<newline>'',
             \<lparr>inbound = [], send_faults = [], outbound = []\<rparr>)
   \<and> endswith ''Blackfire-Response: ok\<newline>\<newline>'' MARKER"
proof -
  let ?s1 = "\<lparr>inbound = [Data ''Blackfire-Response: ok'', Data [], Data ''\<newline>\<newline>''],
         send_faults = [], outbound = []\<rparr>"
  let ?s2 = "\<lparr>inbound = [Data ''Blackfire-Response: ok\<newline>'', Data ''\<newline>''],
         send_faults = [], outbound = []\<rparr>"
  let ?s3 = "\<lparr>inbound = [], send_faults = [], outbound = []\<rparr>"
  have h: "\<not> frame_complete ''Blackfire-Response: ok''"
    by code_simp
  have "\<forall>k. 0 < k \<and> k \<le> length [''Blackfire-Response: ok'']
           \<longrightarrow> \<not> frame_complete (concat (take k [''Blackfire-Response: ok'']))"
    using h by simp
  with recv_zero_length_read [of "[''Blackfire-Response: ok'']" ?s1 "[Data ''\<newline>\<newline>'']"]
  have a: "recv ?s1 = Some (Inl (BlackfireApiException
             ''Agent recv data failed.[Agent closed the connection.]''),
             \<lparr>inbound = [Data ''\<newline>\<newline>''], send_faults = [], outbound = []\<rparr>)"
    by simp
  have b: "recv ?s2 = Some (Inr ''Blackfire-Response: ok\<newline>\<newline>'', ?s3)"
    by code_simp
  with recv_zero_length_read [of _ ?s2 _ "''Blackfire-Response: ok\<newline>\<newline>''" ?s3]
  have "endswith ''Blackfire-Response: ok\<newline>\<newline>'' MARKER \<or>
        contains_blackfireyaml_header ''Blackfire-Response: ok\<newline>\<newline>''"
    by simp
  moreover have "\<not> contains_blackfireyaml_header ''Blackfire-Response: ok\<newline>\<newline>''"
    by code_simp
  ultimately have c: "endswith ''Blackfire-Response: ok\<newline>\<newline>'' MARKER" by simp
  from a b c show ?thesis by simp
qed

section \<open>Cutting a string at a character\<close>

declare str_split.simps [simp del]

lemma str_find_char:
  "str_find s [c] = (if c \<in> set s then Some (length (takeWhile (\<lambda>x. x \<noteq> c) s)) else None)"
  by (induction s) auto

lemma take_takeWhile_length: "take (length (takeWhile P s)) s = takeWhile P s"
  by (induction s) auto

lemma drop_takeWhile_length: "drop (Suc (length (takeWhile P s))) s = tl (dropWhile P s)"
  by (induction s) auto

lemma str_split1_char:
  "str_split1 s [c] =
     (if c \<in> set s then [takeWhile (\<lambda>x. x \<noteq> c) s, tl (dropWhile (\<lambda>x. x \<noteq> c) s)] else [s])"
  by (simp add: str_split1_def str_find_char take_takeWhile_length drop_takeWhile_length)

lemma str_split_char:
  "str_split s [c] =
     (if c \<in> set s
      then takeWhile (\<lambda>x. x \<noteq> c) s # str_split (tl (dropWhile (\<lambda>x. x \<noteq> c) s)) [c]
      else [s])"
  by (subst str_split.simps)
     (simp add: str_find_char take_takeWhile_length drop_takeWhile_length)

lemma str_split_nonempty: "str_split s sep \<noteq> []"
  by (subst str_split.simps) (simp split: option.splits)

lemma str_find_append:
  "str_find s sep = Some i \<Longrightarrow> s = take i s @ sep @ drop (i + length sep) s"
proof (induction s arbitrary: i)
  case Nil
  then show ?case by (simp split: if_splits)
next
  case (Cons c cs)
  show ?case
  proof (cases "prefix sep (c # cs)")
    case True
    with Cons.prems have i: "i = 0" by simp
    from True obtain r where r: "c # cs = sep @ r" by (auto simp: prefix_def)
    then have "drop (length sep) (c # cs) = r" by (metis append_eq_conv_conj)
    with i r show ?thesis by simp
  next
    case False
    with Cons.prems obtain j where j: "str_find cs sep = Some j" "i = Suc j" by auto
    from Cons.IH [OF j(1)] j(2) show ?thesis by simp
  qed
qed

text \<open>Joining the parts with the separator gives the string back.\<close>

lemma join_Cons: "ys \<noteq> [] \<Longrightarrow> join sep (x # ys) = x @ sep @ join sep ys"
  by (cases ys) simp_all

lemma join_str_split: "sep \<noteq> [] \<Longrightarrow> join sep (str_split s sep) = s"
proof (induction s sep rule: str_split.induct)
  case (1 s sep)
  show ?case
  proof (cases "str_find s sep")
    case None
    with "1.prems" show ?thesis by (subst str_split.simps) simp
  next
    case (Some i)
    with "1.IH" "1.prems" have "join sep (str_split (drop (i + length sep) s) sep) = drop (i + length sep) s"
      by simp
    with Some "1.prems" str_find_append [OF Some] show ?thesis
      by (subst str_split.simps) (simp add: join_Cons str_split_nonempty)
  qed
qed

section \<open>The claims about BlackfireRequest\<close>

lemma reserved_headers_first:
  "concat (map (\<lambda>kv. if fst kv \<in> set [''Blackfire-Query'', ''file-format''] then []
                       else header_line kv) hs)
   = concat (map header_line
       (filter (\<lambda>kv. fst kv \<noteq> ''file-format'' \<and> fst kv \<noteq> ''Blackfire-Query'') hs))"
  by (induction hs) auto

text \<open>
  Claim C4. A request whose stored headers include \<^verbatim>\<open>file-format\<close> and
  \<^verbatim>\<open>Blackfire-Query\<close> serializes to the \<^verbatim>\<open>file-format\<close> line, then the
  \<^verbatim>\<open>Blackfire-Query\<close> line, then the lines of all other headers in their stored order,
  then the blank line and the body. The two leading lines are the same for any other
  order of the same headers.
\<close>

theorem to_bytes_reserved_headers_lead:
  "(dict_get (headers self) ''file-format'' = Some f
      \<and> dict_get (headers self) ''Blackfire-Query'' = Some q
    \<longrightarrow> BlackfireRequest_to_bytes self =
          ''file-format: '' @ f @ ''\<newline>'' @ ''Blackfire-Query: '' @ q @ ''\<newline>'' @
          concat (map header_line
            (filter (\<lambda>kv. fst kv \<noteq> ''file-format'' \<and> fst kv \<noteq> ''Blackfire-Query'')
               (headers self))) @
          ''\<newline>'' @ (case data self of Some d \<Rightarrow> d | None \<Rightarrow> []))
   \<and> (dict_get (headers self) ''file-format'' = Some f
      \<and> dict_get (headers self) ''Blackfire-Query'' = Some q
      \<and> map_of hs' = map_of (headers self)
    \<longrightarrow> prefix (''file-format: '' @ f @ ''\<newline>'' @ ''Blackfire-Query: '' @ q @ ''\<newline>'')
          (BlackfireRequest_to_bytes (self\<lparr>headers := hs'\<rparr>)))"
proof (intro conjI impI)
  assume a: "dict_get (headers self) ''file-format'' = Some f
      \<and> dict_get (headers self) ''Blackfire-Query'' = Some q"
  then have "headers self \<noteq> []" by (auto simp: dict_get_def)
  with a show "BlackfireRequest_to_bytes self =
          ''file-format: '' @ f @ ''\<newline>'' @ ''Blackfire-Query: '' @ q @ ''\<newline>'' @
          concat (map header_line
            (filter (\<lambda>kv. fst kv \<noteq> ''file-format'' \<and> fst kv \<noteq> ''Blackfire-Query'')
               (headers self))) @
          ''\<newline>'' @ (case data self of Some d \<Rightarrow> d | None \<Rightarrow> [])"
    unfolding BlackfireRequest_to_bytes_def reserved_headers_first
    by (simp split: option.splits)
next
  assume b: "dict_get (headers self) ''file-format'' = Some f
      \<and> dict_get (headers self) ''Blackfire-Query'' = Some q
      \<and> map_of hs' = map_of (headers self)"
  then have "dict_get hs' ''file-format'' = Some f" and "dict_get hs' ''Blackfire-Query'' = Some q"
    by (simp_all add: dict_get_def)
  then show "prefix (''file-format: '' @ f @ ''\<newline>'' @ ''Blackfire-Query: '' @ q @ ''\<newline>'')
          (BlackfireRequest_to_bytes (self\<lparr>headers := hs'\<rparr>))"
    unfolding BlackfireRequest_to_bytes_def by (simp add: prefix_def)
qed

theorem to_bytes_reserved_headers_lead_witness:
  "BlackfireRequest_to_bytes
     \<lparr>headers = [(''a'', ''b''), (''Blackfire-Query'', ''q''), (''c'', ''d''), (''file-format'', ''x'')],
      data = Some ''body''\<rparr>
   = ''file-format: x\<newline>Blackfire-Query: q\<newline>a: b\<newline>c: d\<newline>\<newline>body''
   \<and> prefix ''file-format: x\<newline>Blackfire-Query: q\<newline>''
       (BlackfireRequest_to_bytes
          \<lparr>headers = [(''file-format'', ''x''), (''c'', ''d''), (''a'', ''b''), (''Blackfire-Query'', ''q'')],
           data = Some ''body''\<rparr>)"
proof -
  let ?r = "\<lparr>headers = [(''a'', ''b''), (''Blackfire-Query'', ''q''), (''c'', ''d''), (''file-format'', ''x'')],
      data = Some ''body''\<rparr>"
  let ?hs' = "[(''file-format'', ''x''), (''c'', ''d''), (''a'', ''b''), (''Blackfire-Query'', ''q'')]"
  have h1: "dict_get (headers ?r) ''file-format'' = Some ''x''" by code_simp
  have h2: "dict_get (headers ?r) ''Blackfire-Query'' = Some ''q''" by code_simp
  have h3: "map_of ?hs' = map_of (headers ?r)" by (rule ext) simp
  have a: "BlackfireRequest_to_bytes ?r
      = ''file-format: x\<newline>Blackfire-Query: q\<newline>a: b\<newline>c: d\<newline>\<newline>body''"
    using to_bytes_reserved_headers_lead [of ?r "''x''" "''q''", THEN conjunct1] h1 h2
    by (simp add: header_line_def)
  have b: "prefix ''file-format: x\<newline>Blackfire-Query: q\<newline>''
       (BlackfireRequest_to_bytes (?r\<lparr>headers := ?hs'\<rparr>))"
    using to_bytes_reserved_headers_lead [of ?r "''x''" "''q''" ?hs', THEN conjunct2] h1 h2 h3
    by simp
  from a b show ?thesis by simp
qed

text \<open>
  Claim C9. The request built from the headers \<^verbatim>\<open>file-format: x\<close>,
  \<^verbatim>\<open>Blackfire-Query: q\<close> and \<^verbatim>\<open>A: b\<close> with no body serializes to bytes that a new
  request parses back into the three headers, \<^verbatim>\<open>A\<close> in lower case, and the empty body;
  so it does when the headers are given in the reverse order.
\<close>

theorem request_roundtrip:
  "BlackfireRequest_to_bytes
     (BlackfireRequest [(''file-format'', ''x''), (''Blackfire-Query'', ''q''), (''A'', ''b'')] None)
   = ''file-format: x\<newline>Blackfire-Query: q\<newline>a: b\<newline>\<newline>''
   \<and> BlackfireRequest_from_bytes (BlackfireRequest [] None)
       (BlackfireRequest_to_bytes
          (BlackfireRequest [(''file-format'', ''x''), (''Blackfire-Query'', ''q''), (''A'', ''b'')] None))
     = Inr \<lparr>headers = [(''file-format'', ''x''), (''Blackfire-Query'', ''q''), (''a'', ''b'')],
            data = Some []\<rparr>
   \<and> BlackfireRequest_from_bytes (BlackfireRequest [] None)
       (BlackfireRequest_to_bytes
          (BlackfireRequest [(''A'', ''b''), (''Blackfire-Query'', ''q''), (''file-format'', ''x'')] None))
     = Inr \<lparr>headers = [(''file-format'', ''x''), (''Blackfire-Query'', ''q''), (''a'', ''b'')],
            data = Some []\<rparr>"
  by code_simp

text \<open>
  Claim C7. \<^verbatim>\<open>from_bytes\<close> cuts the text at the full-frame marker, so the text is the
  segments joined by the marker, and there is at least one segment. One segment gives
  the headers parsed from it and leaves the body as it was (\<^verbatim>\<open>None\<close> in a new request);
  two segments give the second as the body; three give the second and third joined by
  one newline; four or more raise the malformed-message error.
\<close>

theorem request_from_bytes_segments:
  "join MARKER (str_split raw MARKER) = raw
   \<and> 1 \<le> length (str_split raw MARKER)
   \<and> (str_split raw MARKER = [h]
      \<longrightarrow> BlackfireRequest_from_bytes self raw =
            Inr \<lparr>headers = header_lines_loop (headers self) (str_split h ''\<newline>''),
                 data = data self\<rparr>
          \<and> data (BlackfireRequest hs None) = None)
   \<and> (str_split raw MARKER = [h, d]
      \<longrightarrow> BlackfireRequest_from_bytes self raw =
            Inr \<lparr>headers = header_lines_loop (headers self) (str_split h ''\<newline>''),
                 data = Some d\<rparr>)
   \<and> (str_split raw MARKER = [h, d1, d2]
      \<longrightarrow> BlackfireRequest_from_bytes self raw =
            Inr \<lparr>headers = header_lines_loop (headers self) (str_split h ''\<newline>''),
                 data = Some (d1 @ ''\<newline>'' @ d2)\<rparr>)
   \<and> (4 \<le> length (str_split raw MARKER)
      \<longrightarrow> BlackfireRequest_from_bytes self raw =
            Inl (BlackfireApiException (''Invalid BlackfireRequest message. ['' @ raw @ '']'')))"
proof (intro conjI impI)
  show "join MARKER (str_split raw MARKER) = raw"
    by (rule join_str_split) (simp add: MARKER_def)
  show "1 \<le> length (str_split raw MARKER)"
    using str_split_nonempty [of raw MARKER] by (cases "str_split raw MARKER") simp_all
  show "data (BlackfireRequest hs None) = None"
    by (simp add: BlackfireRequest_def)
next
  assume "str_split raw MARKER = [h]"
  then show "BlackfireRequest_from_bytes self raw =
      Inr \<lparr>headers = header_lines_loop (headers self) (str_split h ''\<newline>''), data = data self\<rparr>"
    by (simp add: BlackfireRequest_from_bytes_def)
next
  assume "str_split raw MARKER = [h, d]"
  then show "BlackfireRequest_from_bytes self raw =
      Inr \<lparr>headers = header_lines_loop (headers self) (str_split h ''\<newline>''), data = Some d\<rparr>"
    by (simp add: BlackfireRequest_from_bytes_def)
next
  assume "str_split raw MARKER = [h, d1, d2]"
  then show "BlackfireRequest_from_bytes self raw =
      Inr \<lparr>headers = header_lines_loop (headers self) (str_split h ''\<newline>''),
           data = Some (d1 @ ''\<newline>'' @ d2)\<rparr>"
    by (simp add: BlackfireRequest_from_bytes_def)
next
  assume "4 \<le> length (str_split raw MARKER)"
  then obtain a b c d rest where "str_split raw MARKER = a # b # c # d # rest"
    by (cases "str_split raw MARKER" rule: list.exhaust; simp)
       (metis Suc_le_length_iff numeral_3_eq_3 Suc_le_mono length_Cons list.size(3) not_less_eq_eq le0)
  then show "BlackfireRequest_from_bytes self raw =
      Inl (BlackfireApiException (''Invalid BlackfireRequest message. ['' @ raw @ '']''))"
    by (simp add: BlackfireRequest_from_bytes_def)
qed

theorem request_from_bytes_segments_witness:
  "BlackfireRequest_from_bytes (BlackfireRequest [] None) ''a: b''
     = Inr \<lparr>headers = header_lines_loop [] (str_split ''a: b'' ''\<newline>''), data = None\<rparr>
   \<and> BlackfireRequest_from_bytes (BlackfireRequest [] None) ''a: b\<newline>\<newline>x''
     = Inr \<lparr>headers = header_lines_loop [] (str_split ''a: b'' ''\<newline>''), data = Some ''x''\<rparr>
   \<and> BlackfireRequest_from_bytes (BlackfireRequest [] None) ''a: b\<newline>\<newline>x\<newline>\<newline>y''
     = Inr \<lparr>headers = header_lines_loop [] (str_split ''a: b'' ''\<newline>''),
            data = Some ''x\<newline>y''\<rparr>
   \<and> BlackfireRequest_from_bytes (BlackfireRequest [] None) ''a: b\<newline>\<newline>x\<newline>\<newline>y\<newline>\<newline>z''
     = Inl (BlackfireApiException
         ''Invalid BlackfireRequest message. [a: b\<newline>\<newline>x\<newline>\<newline>y\<newline>\<newline>z]'')
   \<and> header_lines_loop [] (str_split ''a: b'' ''\<newline>'') = [(''a'', ''b'')]"
proof -
  let ?self = "BlackfireRequest [] None"
  have s: "headers ?self = []" "data ?self = None"
    by (simp_all add: BlackfireRequest_def)
  have h1: "str_split ''a: b'' MARKER = [''a: b'']"
    by code_simp
  have h2: "str_split ''a: b\<newline>\<newline>x'' MARKER = [''a: b'', ''x'']"
    by code_simp
  have h3: "str_split ''a: b\<newline>\<newline>x\<newline>\<newline>y'' MARKER = [''a: b'', ''x'', ''y'']"
    by code_simp
  have h4: "4 \<le> length (str_split ''a: b\<newline>\<newline>x\<newline>\<newline>y\<newline>\<newline>z'' MARKER)"
    by code_simp
  have h5: "header_lines_loop [] (str_split ''a: b'' ''\<newline>'') = [(''a'', ''b'')]"
    by code_simp
  from request_from_bytes_segments [where raw = "''a: b''" and self = ?self and h = "''a: b''"] h1 s
  have a: "BlackfireRequest_from_bytes ?self ''a: b''
     = Inr \<lparr>headers = header_lines_loop [] (str_split ''a: b'' ''\<newline>''), data = None\<rparr>"
    by simp
  from request_from_bytes_segments [where raw = "''a: b\<newline>\<newline>x''" and self = ?self and h = "''a: b''" and d = "''x''"] h2 s
  have b: "BlackfireRequest_from_bytes ?self ''a: b\<newline>\<newline>x''
     = Inr \<lparr>headers = header_lines_loop [] (str_split ''a: b'' ''\<newline>''), data = Some ''x''\<rparr>"
    by simp
  from request_from_bytes_segments
    [where raw = "''a: b\<newline>\<newline>x\<newline>\<newline>y''" and self = ?self and h = "''a: b''"
       and ?d1.0 = "''x''" and ?d2.0 = "''y''"] h3 s
  have c: "BlackfireRequest_from_bytes ?self ''a: b\<newline>\<newline>x\<newline>\<newline>y''
     = Inr \<lparr>headers = header_lines_loop [] (str_split ''a: b'' ''\<newline>''),
            data = Some ''x\<newline>y''\<rparr>"
    by simp
  from request_from_bytes_segments [where raw = "''a: b\<newline>\<newline>x\<newline>\<newline>y\<newline>\<newline>z''" and self = ?self] h4
  have d: "BlackfireRequest_from_bytes ?self ''a: b\<newline>\<newline>x\<newline>\<newline>y\<newline>\<newline>z''
     = Inl (BlackfireApiException
         ''Invalid BlackfireRequest message. [a: b\<newline>\<newline>x\<newline>\<newline>y\<newline>\<newline>z]'')"
    by simp
  from a b c d h5 show ?thesis by simp
qed

section \<open>The claims about BlackfireResponse\<close>

lemma count_list_takeWhile_neq: "count_list (takeWhile (\<lambda>x. x \<noteq> c) s) c = 0"
  by (induction s) auto

lemma count_list_cut:
  "c \<in> set s \<Longrightarrow> count_list s c = Suc (count_list (tl (dropWhile (\<lambda>x. x \<noteq> c) s)) c)"
  by (induction s) auto

lemma cut_at_char:
  "c \<in> set s \<Longrightarrow> s = takeWhile (\<lambda>x. x \<noteq> c) s @ [c] @ tl (dropWhile (\<lambda>x. x \<noteq> c) s)"
  by (induction s) auto

lemma length_str_split_char: "length (str_split s [c]) = Suc (count_list s c)"
proof (induction "length s" arbitrary: s rule: less_induct)
  case less
  show ?case
  proof (cases "c \<in> set s")
    case False
    then show ?thesis by (subst str_split_char) simp
  next
    case True
    let ?r = "tl (dropWhile (\<lambda>x. x \<noteq> c) s)"
    from True have "length ?r < length s"
      by (induction s) (auto simp: less_Suc_eq_le length_dropWhile_le le_SucI)
    then have "length (str_split ?r [c]) = Suc (count_list ?r c)" by (rule less)
    with True show ?thesis
      by (subst str_split_char) (simp add: count_list_cut)
  qed
qed

lemma str_split_one_colon:
  assumes "count_list s c = 1"
  shows "str_split s [c] = [takeWhile (\<lambda>x. x \<noteq> c) s, tl (dropWhile (\<lambda>x. x \<noteq> c) s)]"
proof -
  from assms have mem: "c \<in> set s" by (metis count_list_0_iff zero_neq_one)
  with assms have "count_list (tl (dropWhile (\<lambda>x. x \<noteq> c) s)) c = 0"
    using count_list_cut [OF mem] by simp
  then have "c \<notin> set (tl (dropWhile (\<lambda>x. x \<noteq> c) s))" by (simp add: count_list_0_iff)
  then have "str_split (tl (dropWhile (\<lambda>x. x \<noteq> c) s)) [c] = [tl (dropWhile (\<lambda>x. x \<noteq> c) s)]"
    by (subst str_split_char) simp
  with mem show ?thesis by (subst str_split_char) simp
qed

lemma str_split_first: "\<exists>rest. str_split s [c] = takeWhile (\<lambda>x. x \<noteq> c) s # rest"
proof (cases "c \<in> set s")
  case True
  then show ?thesis by (subst str_split_char) simp
next
  case False
  then have "takeWhile (\<lambda>x. x \<noteq> c) s = s" by (auto simp: takeWhile_eq_all_conv)
  moreover from False have "str_split s [c] = [s]" by (subst str_split_char) simp
  ultimately show ?thesis by metis
qed

lemma args_loop_raises:
  "line \<in> set lines \<Longrightarrow> CHR '':'' \<notin> set line \<Longrightarrow>
   args_loop acc lines =
     (fst (args_loop acc (takeWhile (\<lambda>l. CHR '':'' \<in> set l) lines)), Some ValueError)"
proof (induction lines arbitrary: acc)
  case Nil
  then show ?case by simp
next
  case (Cons l lines)
  show ?case
  proof (cases "CHR '':'' \<in> set l")
    case True
    with Cons.prems have "line \<in> set lines" by auto
    with Cons.IH Cons.prems(2) True show ?thesis
      by (simp add: str_split1_char)
  next
    case False
    then show ?thesis by (simp add: str_split1_char)
  qed
qed

lemma from_bytes_status_line:
  assumes "str_split (strip raw) ''\<newline>'' = line0 # lines"
    and "str_split line0 '':'' = [t, v]"
  shows "BlackfireResponse_from_bytes qsl self raw =
     (self\<lparr>status_code := (if strip t = ''Blackfire-Error'' then ERR else OK),
           raw_data := Some (strip raw),
           status_val := Some (strip v),
           status_val_dict := Some (dict_of (qsl (strip v))),
           args := fst (args_loop (args self) lines)\<rparr>,
      snd (args_loop (args self) lines))"
  using assms
  by (simp add: BlackfireResponse_from_bytes_def Let_def split: prod.splits)

lemma from_bytes_bad_status_line:
  assumes "str_split (strip raw) ''\<newline>'' = line0 # lines"
    and "length (str_split line0 '':'') \<noteq> 2"
  shows "BlackfireResponse_from_bytes qsl self raw =
     (self\<lparr>status_code := OK, raw_data := Some (strip raw)\<rparr>, Some ValueError)"
proof (cases "str_split line0 '':''")
  case Nil
  with assms show ?thesis by (simp add: BlackfireResponse_from_bytes_def)
next
  case (Cons a as)
  show ?thesis
  proof (cases as)
    case Nil
    with Cons assms show ?thesis by (simp add: BlackfireResponse_from_bytes_def)
  next
    case (Cons b bs)
    with \<open>str_split line0 '':'' = a # as\<close> assms(2) obtain c cs where "bs = c # cs"
      by (cases bs) auto
    with Cons \<open>str_split line0 '':'' = a # as\<close> assms(1) show ?thesis
      by (simp add: BlackfireResponse_from_bytes_def)
  qed
qed

text \<open>
  Claim C6, amended. When the first line of the stripped input has exactly one colon,
  \<^verbatim>\<open>from_bytes\<close> cuts it there into the type token and the value, sets the status
  code to \<open>ERR\<close> exactly when the stripped type token is \<^verbatim>\<open>Blackfire-Error\<close> and to
  \<open>OK\<close> otherwise, and stores the stripped value as the status value and its
  query-string parse as the status dict.
\<close>

theorem response_status_line:
  assumes "str_split (strip raw) ''\<newline>'' = line0 # lines"
    and "count_list line0 CHR '':'' = 1"
  shows "line0 = takeWhile (\<lambda>c. c \<noteq> CHR ''\<newline>'') (strip raw)
    \<and> line0 = takeWhile (\<lambda>c. c \<noteq> CHR '':'') line0 @ '':'' @ tl (dropWhile (\<lambda>c. c \<noteq> CHR '':'') line0)
    \<and> status_code (fst (BlackfireResponse_from_bytes qsl self raw)) =
        (if strip (takeWhile (\<lambda>c. c \<noteq> CHR '':'') line0) = ''Blackfire-Error'' then ERR else OK)
    \<and> status_val (fst (BlackfireResponse_from_bytes qsl self raw)) =
        Some (strip (tl (dropWhile (\<lambda>c. c \<noteq> CHR '':'') line0)))
    \<and> status_val_dict (fst (BlackfireResponse_from_bytes qsl self raw)) =
        Some (dict_of (qsl (strip (tl (dropWhile (\<lambda>c. c \<noteq> CHR '':'') line0)))))"
proof -
  from assms(2) have mem: "CHR '':'' \<in> set line0" by (metis count_list_0_iff zero_neq_one)
  from str_split_first [of "strip raw" "CHR ''\<newline>''"] assms(1)
  have first: "line0 = takeWhile (\<lambda>c. c \<noteq> CHR ''\<newline>'') (strip raw)" by auto
  from cut_at_char [OF mem]
  have cut: "line0 = takeWhile (\<lambda>c. c \<noteq> CHR '':'') line0 @ '':'' @ tl (dropWhile (\<lambda>c. c \<noteq> CHR '':'') line0)" .
  from str_split_one_colon [OF assms(2)]
  have "str_split line0 '':'' =
      [takeWhile (\<lambda>c. c \<noteq> CHR '':'') line0, tl (dropWhile (\<lambda>c. c \<noteq> CHR '':'') line0)]" .
  from from_bytes_status_line [OF assms(1) this, of qsl self] first cut
  show ?thesis by simp
qed

theorem response_status_line_witness:
  "BlackfireResponse_from_bytes parse_qsl BlackfireResponse ''Blackfire-Error: timeout\<newline>''
     = (\<lparr>status_code = ERR, status_val = Some ''timeout'', status_val_dict = Some [],
         raw_data = Some ''Blackfire-Error: timeout'', args = []\<rparr>, None)
   \<and> status_code (fst (BlackfireResponse_from_bytes parse_qsl BlackfireResponse
        ''Blackfire-Error: timeout\<newline>'')) = ERR
   \<and> status_val (fst (BlackfireResponse_from_bytes parse_qsl BlackfireResponse
        ''Blackfire-Error: timeout\<newline>'')) = Some ''timeout''"
proof -
  let ?raw = "''Blackfire-Error: timeout\<newline>''"
  let ?line0 = "''Blackfire-Error: timeout''"
  have h1: "str_split (strip ?raw) ''\<newline>'' = ?line0 # []" by code_simp
  have h2: "count_list ?line0 CHR '':'' = 1" by code_simp
  have e1: "strip ''Blackfire-Error'' = ''Blackfire-Error''" by code_simp
  have e2: "strip '' timeout'' = ''timeout''" by code_simp
  have full: "BlackfireResponse_from_bytes parse_qsl BlackfireResponse ?raw
     = (\<lparr>status_code = ERR, status_val = Some ''timeout'', status_val_dict = Some [],
         raw_data = Some ''Blackfire-Error: timeout'', args = []\<rparr>, None)"
    by code_simp
  from response_status_line [OF h1 h2, of parse_qsl BlackfireResponse] e1 e2
  have "status_code (fst (BlackfireResponse_from_bytes parse_qsl BlackfireResponse ?raw)) = ERR
      \<and> status_val (fst (BlackfireResponse_from_bytes parse_qsl BlackfireResponse ?raw)) = Some ''timeout''"
    by simp
  with full show ?thesis by simp
qed

text \<open>
  The claim as written covers a status value that itself contains a colon. There the
  cut at every colon gives three parts and the two-name assignment raises
  \<open>ValueError\<close>: no status value is stored.
\<close>

theorem response_status_line_counterexample:
  "CHR '':'' \<in> set ''Blackfire-Response: a:b''
   \<and> BlackfireResponse_from_bytes parse_qsl BlackfireResponse ''Blackfire-Response: a:b''
     = (\<lparr>status_code = OK, status_val = None, status_val_dict = None,
         raw_data = Some ''Blackfire-Response: a:b'', args = []\<rparr>, Some ValueError)"
  by code_simp

text \<open>
  Claim C10. When a line after the status line has no colon, \<^verbatim>\<open>from_bytes\<close> raises
  \<open>ValueError\<close>, whether the line is empty or not. The argument mapping is then left
  as the lines before the first such line built it (or untouched, when the status line
  itself did not have exactly one colon): the line is neither skipped nor stored.
\<close>

theorem response_line_without_colon:
  assumes "str_split (strip raw) ''\<newline>'' = line0 # lines"
    and "line \<in> set lines" and "CHR '':'' \<notin> set line"
  shows "snd (BlackfireResponse_from_bytes qsl self raw) = Some ValueError
    \<and> args (fst (BlackfireResponse_from_bytes qsl self raw)) =
        (if count_list line0 CHR '':'' = 1
         then fst (args_loop (args self) (takeWhile (\<lambda>l. CHR '':'' \<in> set l) lines))
         else args self)"
proof (cases "count_list line0 CHR '':'' = 1")
  case True
  from str_split_one_colon [OF True]
  have "str_split line0 '':'' =
      [takeWhile (\<lambda>c. c \<noteq> CHR '':'') line0, tl (dropWhile (\<lambda>c. c \<noteq> CHR '':'') line0)]" .
  from from_bytes_status_line [OF assms(1) this, of qsl self]
       args_loop_raises [OF assms(2,3), of "args self"] True
  show ?thesis by simp
next
  case False
  then have "length (str_split line0 '':'') \<noteq> 2"
    by (simp add: length_str_split_char)
  from from_bytes_bad_status_line [OF assms(1) this, of qsl self] False
  show ?thesis by simp
qed

theorem response_line_without_colon_witness:
  "BlackfireResponse_from_bytes parse_qsl BlackfireResponse
     ''Blackfire-Response: ok=1\<newline>Blackfire-Const: A\<newline>stray\<newline>Blackfire-Const: B\<newline>''
   = (\<lparr>status_code = OK, status_val = Some ''ok=1'', status_val_dict = Some [(''ok'', ''1'')],
       raw_data = Some ''Blackfire-Response: ok=1\<newline>Blackfire-Const: A\<newline>stray\<newline>Blackfire-Const: B'',
       args = [(''Blackfire-Const'', [''A''])]\<rparr>, Some ValueError)
   \<and> snd (BlackfireResponse_from_bytes parse_qsl BlackfireResponse
     ''Blackfire-Response: ok=1\<newline>Blackfire-Const: A\<newline>stray\<newline>Blackfire-Const: B\<newline>'')
     = Some ValueError"
proof -
  let ?raw = "''Blackfire-Response: ok=1\<newline>Blackfire-Const: A\<newline>stray\<newline>Blackfire-Const: B\<newline>''"
  have h1: "str_split (strip ?raw) ''\<newline>'' =
      ''Blackfire-Response: ok=1'' # [''Blackfire-Const: A'', ''stray'', ''Blackfire-Const: B'']"
    by code_simp
  have h2: "''stray'' \<in> set [''Blackfire-Const: A'', ''stray'', ''Blackfire-Const: B'']" by simp
  have h3: "CHR '':'' \<notin> set ''stray''" by simp
  have full: "BlackfireResponse_from_bytes parse_qsl BlackfireResponse ?raw
   = (\<lparr>status_code = OK, status_val = Some ''ok=1'', status_val_dict = Some [(''ok'', ''1'')],
       raw_data = Some ''Blackfire-Response: ok=1\<newline>Blackfire-Const: A\<newline>stray\<newline>Blackfire-Const: B'',
       args = [(''Blackfire-Const'', [''A''])]\<rparr>, Some ValueError)"
    by code_simp
  from response_line_without_colon [OF h1 h2 h3, of parse_qsl BlackfireResponse]
  have "snd (BlackfireResponse_from_bytes parse_qsl BlackfireResponse ?raw) = Some ValueError"
    by simp
  with full show ?thesis by simp
qed

section \<open>The claim about BlackfireAPMResponse\<close>

text \<open>
  Claim C5. \<^verbatim>\<open>from_bytes\<close> fails at once on an error line; on any other status line
  it takes the value from the line, stores it stripped as the status value, and stores
  its query-string parse as the status dict. When the \<^verbatim>\<open>success\<close> value of that dict
  contains \<^verbatim>\<open>false\<close>, the call never returns: it raises the status-false exception,
  carrying the dict's \<^verbatim>\<open>error\<close> value when the dict has one and the generic message
  otherwise.
\<close>

theorem apm_status_false:
  assumes "str_split (strip raw) ''\<newline>'' = line0 # lines"
    and "str_split line0 '':'' = resp_type # resp_val # others"
    and "resp_type \<noteq> ''Blackfire-Error''"
    and "dict_get (dict_of (qsl (strip resp_val))) ''success'' = Some success"
    and "contains success ''false''"
  shows "apm_status_val (fst (BlackfireAPMResponse_from_bytes qsl self raw)) = Some (strip resp_val)
    \<and> apm_status_val_dict (fst (BlackfireAPMResponse_from_bytes qsl self raw)) =
        Some (dict_of (qsl (strip resp_val)))
    \<and> snd (BlackfireAPMResponse_from_bytes qsl self raw) =
        Some (BlackfireAPMStatusFalseException
               (case dict_get (dict_of (qsl (strip resp_val))) ''error'' of
                  Some e \<Rightarrow> e
                | None \<Rightarrow> ''status=False and no error received from Agent.''))"
  using assms by (simp add: BlackfireAPMResponse_from_bytes_def Let_def)

theorem apm_status_false_witness:
  "snd (BlackfireAPMResponse_from_bytes parse_qsl BlackfireAPMResponse
          ''Blackfire-Response: success=false&error=bad+signature'')
     = Some (BlackfireAPMStatusFalseException ''bad signature'')
   \<and> apm_status_val (fst (BlackfireAPMResponse_from_bytes parse_qsl BlackfireAPMResponse
          ''Blackfire-Response: success=false&error=bad+signature''))
     = Some ''success=false&error=bad+signature''
   \<and> snd (BlackfireAPMResponse_from_bytes parse_qsl BlackfireAPMResponse
          ''Blackfire-Response: success=false\<newline>timespan: =foo\<newline>'')
     = Some (BlackfireAPMStatusFalseException ''status=False and no error received from Agent.'')"
proof -
  let ?l1 = "''Blackfire-Response: success=false&error=bad+signature''"
  let ?l2 = "''Blackfire-Response: success=false''"
  let ?raw2 = "''Blackfire-Response: success=false\<newline>timespan: =foo\<newline>''"
  have a1: "str_split (strip ?l1) ''\<newline>'' = ?l1 # []" by code_simp
  have a2: "str_split ?l1 '':'' =
      ''Blackfire-Response'' # '' success=false&error=bad+signature'' # []" by code_simp
  have a3: "''Blackfire-Response'' \<noteq> ''Blackfire-Error''" by simp
  have a4: "dict_get (dict_of (parse_qsl (strip '' success=false&error=bad+signature''))) ''success''
      = Some ''false''" by code_simp
  have a5: "contains ''false'' ''false''" by code_simp
  have a6: "dict_get (dict_of (parse_qsl ''success=false&error=bad+signature'')) ''error''
      = Some ''bad signature''" by code_simp
  have a7: "strip '' success=false&error=bad+signature'' = ''success=false&error=bad+signature''"
    by code_simp
  have b1: "str_split (strip ?raw2) ''\<newline>'' = ?l2 # [''timespan: =foo'']" by code_simp
  have b2: "str_split ?l2 '':'' = ''Blackfire-Response'' # '' success=false'' # []" by code_simp
  have b4: "dict_get (dict_of (parse_qsl (strip '' success=false''))) ''success'' = Some ''false''"
    by code_simp
  have b6: "dict_get (dict_of (parse_qsl ''success=false'')) ''error'' = None"
    by code_simp
  have b7: "strip '' success=false'' = ''success=false''" by code_simp
  from apm_status_false [where qsl = parse_qsl and self = BlackfireAPMResponse, OF a1 a2 a3 a4 a5]
  have a: "snd (BlackfireAPMResponse_from_bytes parse_qsl BlackfireAPMResponse ?l1)
       = Some (BlackfireAPMStatusFalseException ''bad signature'')
     \<and> apm_status_val (fst (BlackfireAPMResponse_from_bytes parse_qsl BlackfireAPMResponse ?l1))
       = Some ''success=false&error=bad+signature''"
    by (simp only: a7 a6) simp
  from apm_status_false [where qsl = parse_qsl and self = BlackfireAPMResponse, OF b1 b2 a3 b4 a5]
  have b: "snd (BlackfireAPMResponse_from_bytes parse_qsl BlackfireAPMResponse ?raw2)
     = Some (BlackfireAPMStatusFalseException ''status=False and no error received from Agent.'')"
    by (simp only: b7 b6) simp
  from a b show ?thesis by simp
qed

section \<open>The claim about get_instrumented_funcs\<close>

lemma cut_at_last_space:
  assumes "CHR '' '' \<in> set v"
  shows "v = before_last_space v @ '' '' @ after_last_space v"
    and "CHR '' '' \<notin> set (after_last_space v)"
proof -
  from assms have "CHR '' '' \<in> set (rev v)" by simp
  from cut_at_char [OF this]
  have "rev (rev v) = rev (takeWhile (\<lambda>x. x \<noteq> CHR '' '') (rev v) @ '' '' @
      tl (dropWhile (\<lambda>x. x \<noteq> CHR '' '') (rev v)))" by simp
  then show "v = before_last_space v @ '' '' @ after_last_space v"
    by (simp add: before_last_space_def after_last_space_def)
  show "CHR '' '' \<notin> set (after_last_space v)"
    by (auto simp: after_last_space_def dest: set_takeWhileD)
qed

lemma str_rsplit1_space:
  assumes "CHR '' '' \<in> set v"
  shows "str_rsplit1 v '' '' = [before_last_space v, after_last_space v]"
proof -
  let ?a = "takeWhile (\<lambda>x. x \<noteq> CHR '' '') (rev v)"
  from assms have mem: "CHR '' '' \<in> set (rev v)" by simp
  then have f: "str_find (rev v) (rev '' '') = Some (length ?a)"
    by (simp add: str_find_char)
  from cut_at_last_space(1) [OF assms]
  have v: "v = before_last_space v @ '' '' @ after_last_space v" .
  have la: "length (after_last_space v) = length ?a" by (simp add: after_last_space_def)
  from v have "length v = length (before_last_space v) + 1 + length ?a"
    by (metis la length_append length_Cons list.size(3) One_nat_def add.assoc add.commute add_Suc_right
        append_Cons append_Nil plus_1_eq_Suc)
  then have i: "length v - length '' '' - length ?a = length (before_last_space v)" by simp
  have t: "take (length (before_last_space v)) v = before_last_space v"
    by (subst v) simp
  have d: "drop (length (before_last_space v) + length '' '') v = after_last_space v"
    by (subst v) simp
  from f i t d show ?thesis by (simp add: str_rsplit1_def str_rfind_def)
qed

lemma fn_args_loop_first_wins:
  assumes "\<forall>v \<in> set vs. CHR '' '' \<in> set v"
  shows "\<exists>d. fn_args_loop result vs = Inr d
    \<and> (distinct (map fst result) \<longrightarrow> distinct (map fst d))
    \<and> (\<forall>f. map_of d f =
          (case map_of result f of Some ids \<Rightarrow> Some ids | None \<Rightarrow> map_of (map spec_directive vs) f))"
  using assms
proof (induction vs arbitrary: result)
  case Nil
  then show ?case by (simp split: option.splits)
next
  case (Cons v vs)
  then have sp: "str_rsplit1 v '' '' = [before_last_space v, after_last_space v]"
    and rest: "\<forall>v \<in> set vs. CHR '' '' \<in> set v"
    by (simp_all add: str_rsplit1_space)
  let ?n = "strip (before_last_space v)"
  show ?case
  proof (cases "map_of result ?n")
    case (Some ids)
    from Cons.IH [OF rest, of result] obtain d where d: "fn_args_loop result vs = Inr d"
      "distinct (map fst result) \<longrightarrow> distinct (map fst d)"
      "\<forall>f. map_of d f =
          (case map_of result f of Some ids \<Rightarrow> Some ids | None \<Rightarrow> map_of (map spec_directive vs) f)"
      by blast
    from sp Some d(1) have "fn_args_loop result (v # vs) = Inr d"
      by (simp add: dict_get_def)
    moreover from d(3) Some have "\<forall>f. map_of d f =
          (case map_of result f of Some ids \<Rightarrow> Some ids
           | None \<Rightarrow> map_of (map spec_directive (v # vs)) f)"
      by (auto simp: spec_directive_def split: option.splits)
    ultimately show ?thesis using d(2) by blast
  next
    case None
    let ?r = "dict_set result ?n (parse_arg_ids (after_last_space v))"
    from Cons.IH [OF rest, of ?r] obtain d where d: "fn_args_loop ?r vs = Inr d"
      "distinct (map fst ?r) \<longrightarrow> distinct (map fst d)"
      "\<forall>f. map_of d f =
          (case map_of ?r f of Some ids \<Rightarrow> Some ids | None \<Rightarrow> map_of (map spec_directive vs) f)"
      by blast
    from sp None d(1) have "fn_args_loop result (v # vs) = Inr d"
      by (simp add: dict_get_def)
    moreover from d(3) None have "\<forall>f. map_of d f =
          (case map_of result f of Some ids \<Rightarrow> Some ids
           | None \<Rightarrow> map_of (map spec_directive (v # vs)) f)"
      by (auto simp: spec_directive_def dict_set_def update_conv' split: option.splits)
    moreover from d(2) have "distinct (map fst result) \<longrightarrow> distinct (map fst d)"
      by (simp add: dict_set_def distinct_update)
    ultimately show ?thesis by blast
  qed
qed

text \<open>
  Claim C8, amended. When every value stored under the function-arguments key contains
  a space, \<^verbatim>\<open>get_instrumented_funcs\<close> returns a mapping with one entry for each
  function name. Each value is cut at its last space; the part before it, stripped, is
  the function name, and the part after it, stripped and cut at the commas, gives the
  argument identifiers in order: a token of decimal digits becomes an integer, any other
  token stays a string. The mapping gives each name the identifiers of the first
  directive that names it.
\<close>

theorem instrumented_funcs_first_wins:
  assumes "\<forall>v \<in> set (args_get a key). CHR '' '' \<in> set v"
  shows "\<exists>d. get_instrumented_funcs key a = Inr d
    \<and> distinct (map fst d)
    \<and> (\<forall>f. dict_get d f = map_of (map spec_directive (args_get a key)) f)
    \<and> (\<forall>v \<in> set (args_get a key).
          v = before_last_space v @ '' '' @ after_last_space v
          \<and> CHR '' '' \<notin> set (after_last_space v)
          \<and> spec_directive v =
              (strip (before_last_space v),
               map (\<lambda>t. if t \<noteq> [] \<and> (\<forall>c \<in> set t. c \<in> set ''0123456789'')
                         then IntArg (int_of_digits t) else StrArg t)
                 (str_split (strip (after_last_space v)) '','')))"
proof -
  from fn_args_loop_first_wins [OF assms, of "[]"]
  obtain d where d: "fn_args_loop [] (args_get a key) = Inr d" "distinct (map fst d)"
    "\<forall>f. map_of d f = map_of (map spec_directive (args_get a key)) f"
    by auto
  have digit: "\<And>c. isdigit_char c \<longleftrightarrow> c \<in> set ''0123456789''"
  proof
    fix c
    have m: "map char_of [48..<58::nat] = ''0123456789''" by code_simp
    assume "isdigit_char c"
    then have "48 \<le> (of_char c :: nat) \<and> (of_char c :: nat) < 58"
      by (simp add: isdigit_char_def Let_def)
    then have "(of_char c :: nat) \<in> set [48..<58]"
      by (simp only: set_upt atLeastLessThan_iff)
    then have "char_of (of_char c :: nat) \<in> set (map char_of [48..<58::nat])"
      by (simp only: set_map) (rule imageI)
    then show "c \<in> set ''0123456789''" by (simp only: m char_of_char)
  next
    fix c :: char
    assume "c \<in> set ''0123456789''"
    then show "isdigit_char c" by (auto simp: isdigit_char_def)
  qed
  have tok: "\<And>t. isdigit t \<longleftrightarrow> t \<noteq> [] \<and> (\<forall>c \<in> set t. c \<in> set ''0123456789'')"
    unfolding isdigit_def list_all_iff using digit by blast
  have "\<forall>v \<in> set (args_get a key).
          v = before_last_space v @ '' '' @ after_last_space v
          \<and> CHR '' '' \<notin> set (after_last_space v)
          \<and> spec_directive v =
              (strip (before_last_space v),
               map (\<lambda>t. if t \<noteq> [] \<and> (\<forall>c \<in> set t. c \<in> set ''0123456789'')
                         then IntArg (int_of_digits t) else StrArg t)
                 (str_split (strip (after_last_space v)) '',''))"
    using assms cut_at_last_space tok
    by (auto simp: spec_directive_def parse_arg_ids_def)
  with d show ?thesis
    by (auto simp: get_instrumented_funcs_def dict_get_def)
qed

theorem instrumented_funcs_first_wins_witness:
  "apm_args (fst (BlackfireAPMResponse_from_bytes parse_qsl BlackfireAPMResponse
      ''Blackfire-Response: success=true\<newline>fn-args: foo 0,1\<newline>fn-args: foo 2\<newline>''))
     = [(''fn-args'', [''foo 0,1'', ''foo 2''])]
   \<and> get_instrumented_funcs APM_FN_ARGS_KEY [(''fn-args'', [''foo 0,1'', ''foo 2''])]
     = Inr [(''foo'', [IntArg 0, IntArg 1])]
   \<and> (\<exists>d. get_instrumented_funcs APM_FN_ARGS_KEY [(''fn-args'', [''foo 0,1'', ''foo 2''])] = Inr d
        \<and> dict_get d ''foo'' = Some [IntArg 0, IntArg 1])"
proof -
  let ?a = "[(''fn-args'', [''foo 0,1'', ''foo 2''])]"
  have p: "apm_args (fst (BlackfireAPMResponse_from_bytes parse_qsl BlackfireAPMResponse
      ''Blackfire-Response: success=true\<newline>fn-args: foo 0,1\<newline>fn-args: foo 2\<newline>'')) = ?a"
    by code_simp
  have e: "get_instrumented_funcs APM_FN_ARGS_KEY ?a = Inr [(''foo'', [IntArg 0, IntArg 1])]"
    by code_simp
  have h: "\<forall>v \<in> set (args_get ?a APM_FN_ARGS_KEY). CHR '' '' \<in> set v"
    by code_simp
  have m: "map_of (map spec_directive (args_get ?a APM_FN_ARGS_KEY)) ''foo'' = Some [IntArg 0, IntArg 1]"
    by code_simp
  from instrumented_funcs_first_wins [OF h] obtain d where
    "get_instrumented_funcs APM_FN_ARGS_KEY ?a = Inr d"
    "\<forall>f. dict_get d f = map_of (map spec_directive (args_get ?a APM_FN_ARGS_KEY)) f"
    by blast
  with m have "\<exists>d. get_instrumented_funcs APM_FN_ARGS_KEY ?a = Inr d
      \<and> dict_get d ''foo'' = Some [IntArg 0, IntArg 1]"
    by auto
  with p e show ?thesis by simp
qed

text \<open>
  The claim as written covers every parsed response. A directive with no space gives
  one part only, and the two-name assignment raises \<open>ValueError\<close>: the accessor
  returns no mapping.
\<close>

theorem instrumented_funcs_counterexample:
  "BlackfireResponse_from_bytes parse_qsl BlackfireResponse
     ''Blackfire-Response: success=true\<newline>Blackfire-Fn-Args: foo\<newline>''
     = (\<lparr>status_code = OK, status_val = Some ''success=true'',
         status_val_dict = Some [(''success'', ''true'')],
         raw_data = Some ''Blackfire-Response: success=true\<newline>Blackfire-Fn-Args: foo'',
         args = [(''Blackfire-Fn-Args'', [''foo''])]\<rparr>, None)
   \<and> get_instrumented_funcs FN_ARGS_KEY [(''Blackfire-Fn-Args'', [''foo''])] = Inl ValueError"
  by code_simp

section \<open>The claim about the handshake\<close>

lemma map_of_dict_update: "map_of (dict_update d other) = map_of d ++ map_of (rev other)"
proof (induction other arbitrary: d)
  case Nil
  then show ?case by (simp add: dict_update_def)
next
  case (Cons kv other)
  have "map_of (dict_update d (kv # other)) = map_of (dict_update (dict_set d (fst kv) (snd kv)) other)"
    by (simp add: dict_update_def case_prod_beta)
  also have "\<dots> = map_of (dict_set d (fst kv) (snd kv)) ++ map_of (rev other)"
    by (rule Cons.IH)
  also have "\<dots> = map_of d ++ map_of (rev (kv # other))"
    by (cases kv) (simp add: dict_set_def update_conv' map_add_upd_left fun_eq_iff map_add_def
        split: option.splits)
  finally show ?case .
qed

lemma map_of_rev_distinct: "distinct (map fst xs) \<Longrightarrow> map_of (rev xs) = map_of xs"
proof (induction xs)
  case Nil
  then show ?case by simp
next
  case (Cons kv xs)
  then have "fst kv \<notin> dom (map_of xs)" by (simp add: dom_map_of_conv_image_fst)
  then have "map_of xs (fst kv) = None" by blast
  with Cons show ?case
    by (cases kv) (auto simp: fun_eq_iff map_add_def split: option.splits)
qed

lemma dict_get_dict_update:
  "distinct (map fst other) \<Longrightarrow>
   dict_get (dict_update d other) k =
     (case dict_get other k of Some v \<Rightarrow> Some v | None \<Rightarrow> dict_get d k)"
  by (simp add: dict_get_def map_of_dict_update map_of_rev_distinct map_add_def
      split: option.splits)

lemma keys_dict_update:
  "distinct (map fst other) \<Longrightarrow>
   map fst (dict_update d other) =
     map fst d @ filter (\<lambda>k. k \<notin> set (map fst d)) (map fst other)"
proof (induction other arbitrary: d)
  case Nil
  then show ?case by (simp add: dict_update_def)
next
  case (Cons kv other)
  obtain k v where kv: "kv = (k, v)" by (cases kv)
  from Cons.prems kv have k: "k \<notin> set (map fst other)" and dist: "distinct (map fst other)"
    by auto
  have step: "dict_update d (kv # other) = dict_update (dict_set d k v) other"
    by (simp add: dict_update_def kv)
  show ?case
  proof (cases "k \<in> set (map fst d)")
    case True
    then have "map fst (dict_set d k v) = map fst d"
      by (simp add: dict_set_def update_keys)
    with Cons.IH [OF dist, of "dict_set d k v"] True kv step show ?thesis by simp
  next
    case False
    then have keys: "map fst (dict_set d k v) = map fst d @ [k]"
      by (simp add: dict_set_def update_keys)
    from k have "filter (\<lambda>x. x \<notin> set (map fst d @ [k])) (map fst other)
        = filter (\<lambda>x. x \<notin> set (map fst d)) (map fst other)"
      by (intro filter_cong) auto
    with Cons.IH [OF dist, of "dict_set d k v"] keys False kv step show ?thesis by simp
  qed
qed

lemma args_loop_distinct:
  "distinct (map fst acc) \<Longrightarrow> distinct (map fst (fst (args_loop acc lines)))"
proof (induction lines arbitrary: acc)
  case Nil
  then show ?case by simp
next
  case (Cons l lines)
  show ?case
  proof (cases "CHR '':'' \<in> set l")
    case True
    with Cons show ?thesis
      by (simp add: str_split1_char dict_append_def distinct_map_default)
  next
    case False
    with Cons.prems show ?thesis by (simp add: str_split1_char)
  qed
qed

lemma from_bytes_args:
  "args (fst (BlackfireResponse_from_bytes qsl self raw)) = args self \<or>
   (\<exists>lines. args (fst (BlackfireResponse_from_bytes qsl self raw)) = fst (args_loop (args self) lines))"
  by (auto simp: BlackfireResponse_from_bytes_def Let_def split: list.splits prod.splits)
     (metis fst_conv)

lemma from_bytes_distinct:
  assumes "BlackfireResponse_from_bytes qsl BlackfireResponse raw = (r, e)"
  shows "distinct (map fst (args r))"
proof -
  have "distinct (map fst (args BlackfireResponse))" by (simp add: BlackfireResponse_def)
  with from_bytes_args [of qsl BlackfireResponse raw] assms show ?thesis
    by (auto simp: args_loop_distinct)
qed

declare send.simps [simp del] str_nat.simps [simp del]

lemma write_prolog_second_round:
  assumes "probe_header cfg env = Inr (bf_probe_header, Some content)"
    and "send (BlackfireRequest_to_bytes
           (BlackfireRequest (hello_headers cfg env bf_probe_header) None)) (sock self) = (None, s1)"
    and "recv s1 = Some (Inr raw1, s2)"
    and "BlackfireResponse_from_bytes qsl BlackfireResponse raw1 = (r1, None)"
    and "status_code r1 = OK"
    and "status_val_dict r1 = Some d1" and "dict_get d1 ''blackfire_yml'' = Some ''true''"
    and "send (BlackfireRequest_to_bytes
           (BlackfireRequest [(''Blackfire-Yaml-Size'', str_nat (length content))] (Some content)))
           s2 = (None, s3)"
    and "recv s3 = Some (Inr raw2, s4)"
    and "BlackfireResponse_from_bytes qsl BlackfireResponse raw2 = (r2, None)"
    and "status_code r2 = OK"
  shows "write_prolog qsl cfg env self =
     Some (self\<lparr>sock := s4,
                agent_response := Some (r1\<lparr>args := dict_update (args r1) (args r2)\<rparr>)\<rparr>, None)"
  using assms by (simp add: write_prolog_def Let_def)

lemma send_one_chunk:
  assumes "payload \<noteq> []" and "length payload \<le> MAX_SEND_SIZE"
  shows "send payload s =
     (case sendall payload s of
        (Some e, s') \<Rightarrow>
          (Some (BlackfireApiException
             (''Agent send data failed.['' @ e @ '']['' @ payload @ '']'')), s')
      | (None, s') \<Rightarrow> (None, s'))"
proof -
  from assms(2) have "take MAX_SEND_SIZE payload = payload" "drop MAX_SEND_SIZE payload = []"
    by simp_all
  with assms(1) show ?thesis
    by (subst send.simps) (simp add: send.simps [of "[]"] split: prod.splits option.splits)
qed

text \<open>
  Claim C1. Take a handshake in which the hello request is sent, the first response is
  received and parses with status \<open>OK\<close> and \<^verbatim>\<open>blackfire_yml=true\<close> in its status dict,
  the configuration payload is sent, and the second response is received and parses with
  status \<open>OK\<close>. Then \<^verbatim>\<open>_write_prolog\<close> returns with the first response stored in the
  connection, its argument mapping updated with the second response's: a key of the
  second response has the second response's values, any other key keeps the first
  response's, and the new keys come after the old ones. So each accessor, called on the
  stored response, reads the second response's directives under a key that the second
  response has, and the first response's otherwise.
\<close>

theorem handshake_merges_second_response:
  assumes "probe_header cfg env = Inr (bf_probe_header, Some content)"
    and "send (BlackfireRequest_to_bytes
           (BlackfireRequest (hello_headers cfg env bf_probe_header) None)) (sock self) = (None, s1)"
    and "recv s1 = Some (Inr raw1, s2)"
    and "BlackfireResponse_from_bytes qsl BlackfireResponse raw1 = (r1, None)"
    and "status_code r1 = OK"
    and "status_val_dict r1 = Some d1" and "dict_get d1 ''blackfire_yml'' = Some ''true''"
    and "send (BlackfireRequest_to_bytes
           (BlackfireRequest [(''Blackfire-Yaml-Size'', str_nat (length content))] (Some content)))
           s2 = (None, s3)"
    and "recv s3 = Some (Inr raw2, s4)"
    and "BlackfireResponse_from_bytes qsl BlackfireResponse raw2 = (r2, None)"
    and "status_code r2 = OK"
  shows "write_prolog qsl cfg env self =
      Some (self\<lparr>sock := s4,
                 agent_response := Some (r1\<lparr>args := dict_update (args r1) (args r2)\<rparr>)\<rparr>, None)
    \<and> (\<forall>key. dict_get (dict_update (args r1) (args r2)) key =
          (case dict_get (args r2) key of Some vs \<Rightarrow> Some vs | None \<Rightarrow> dict_get (args r1) key))
    \<and> map fst (dict_update (args r1) (args r2)) =
        map fst (args r1) @ filter (\<lambda>k. k \<notin> set (map fst (args r1))) (map fst (args r2))
    \<and> (\<forall>key. get_instrumented_funcs key (dict_update (args r1) (args r2)) =
          get_instrumented_funcs key (if dict_get (args r2) key = None then args r1 else args r2))
    \<and> (\<forall>key. get_constants key (dict_update (args r1) (args r2)) =
          get_constants key (if dict_get (args r2) key = None then args r1 else args r2))
    \<and> (\<forall>key. get_timespan_selectors key (dict_update (args r1) (args r2)) =
          get_timespan_selectors key (if dict_get (args r2) key = None then args r1 else args r2))"
proof -
  from assms(10) have dist: "distinct (map fst (args r2))" by (rule from_bytes_distinct)
  have get: "\<And>key. dict_get (dict_update (args r1) (args r2)) key =
      (case dict_get (args r2) key of Some vs \<Rightarrow> Some vs | None \<Rightarrow> dict_get (args r1) key)"
    by (rule dict_get_dict_update [OF dist])
  have ag: "\<And>key. args_get (dict_update (args r1) (args r2)) key =
      args_get (if dict_get (args r2) key = None then args r1 else args r2) key"
    by (auto simp: args_get_def get split: option.splits)
  from write_prolog_second_round [OF assms]
  have "write_prolog qsl cfg env self =
      Some (self\<lparr>sock := s4,
                 agent_response := Some (r1\<lparr>args := dict_update (args r1) (args r2)\<rparr>)\<rparr>, None)" .
  moreover from keys_dict_update [OF dist]
  have "map fst (dict_update (args r1) (args r2)) =
        map fst (args r1) @ filter (\<lambda>k. k \<notin> set (map fst (args r1))) (map fst (args r2))" .
  moreover have "\<forall>key. get_instrumented_funcs key (dict_update (args r1) (args r2)) =
          get_instrumented_funcs key (if dict_get (args r2) key = None then args r1 else args r2)"
    by (simp only: get_instrumented_funcs_def ag) simp
  moreover have "\<forall>key. get_constants key (dict_update (args r1) (args r2)) =
          get_constants key (if dict_get (args r2) key = None then args r1 else args r2)"
    by (simp only: get_constants_def ag) simp
  moreover have "\<forall>key. get_timespan_selectors key (dict_update (args r1) (args r2)) =
          get_timespan_selectors key (if dict_get (args r2) key = None then args r1 else args r2)"
    by (simp only: get_timespan_selectors_def ag) simp
  ultimately show ?thesis using get by blast
qed

theorem handshake_merges_second_response_witness:
  "write_prolog parse_qsl
     \<lparr>config_args = [], challenge_raw = ''c'', signature = ''s'', args_raw = ''a=1'',
      is_blackfireyml_asked = False\<rparr>
     \<lparr>hexversion = 50923504, blackfireyml_content = Some ''tests: 1'',
      BLACKFIRE_SERVER_ID = None, BLACKFIRE_SERVER_TOKEN = None\<rparr>
     \<lparr>sock = \<lparr>inbound =
         [Data ''Blackfire-Response: blackfire_yml=true&x=1\<newline>Blackfire-Const: A\<newline>Blackfire-Fn-Args: foo 0\<newline>'',
          Data ''Blackfire-Response: ok=1\<newline>Blackfire-Fn-Args: bar 1,2\<newline>Blackfire-Timespan: =baz\<newline>\<newline>''],
        send_faults = [], outbound = []\<rparr>,
      agent_response = None\<rparr>
   = Some (\<lparr>sock = \<lparr>inbound = [], send_faults = [],
        outbound =
          [''Blackfire-Query: c&signature=s&a=1\<newline>Blackfire-Probe: python-50923504, config, blackfire_yml\<newline>\<newline>'',
           ''blackfire-yaml-size: 8\<newline>\<newline>tests: 1'']\<rparr>,
      agent_response = Some
        \<lparr>status_code = OK, status_val = Some ''blackfire_yml=true&x=1'',
         status_val_dict = Some [(''blackfire_yml'', ''true''), (''x'', ''1'')],
         raw_data = Some ''Blackfire-Response: blackfire_yml=true&x=1\<newline>Blackfire-Const: A\<newline>Blackfire-Fn-Args: foo 0'',
         args = [(''Blackfire-Const'', [''A'']), (''Blackfire-Fn-Args'', [''bar 1,2'']),
                 (''Blackfire-Timespan'', [''=baz''])]\<rparr>\<rparr>, None)
   \<and> get_instrumented_funcs FN_ARGS_KEY
       [(''Blackfire-Const'', [''A'']), (''Blackfire-Fn-Args'', [''bar 1,2'']),
        (''Blackfire-Timespan'', [''=baz''])] = Inr [(''bar'', [IntArg 1, IntArg 2])]
   \<and> get_constants CONSTANTS_KEY
       [(''Blackfire-Const'', [''A'']), (''Blackfire-Fn-Args'', [''bar 1,2'']),
        (''Blackfire-Timespan'', [''=baz''])] = [''A'']
   \<and> get_timespan_selectors TIMESPAN_KEY
       [(''Blackfire-Const'', [''A'']), (''Blackfire-Fn-Args'', [''bar 1,2'']),
        (''Blackfire-Timespan'', [''=baz''])] = Inr ({}, {''baz''})"
proof -
  let ?cfg = "\<lparr>config_args = [], challenge_raw = ''c'', signature = ''s'', args_raw = ''a=1'',
      is_blackfireyml_asked = False\<rparr>"
  let ?env = "\<lparr>hexversion = 50923504, blackfireyml_content = Some ''tests: 1'',
      BLACKFIRE_SERVER_ID = None, BLACKFIRE_SERVER_TOKEN = None\<rparr>"
  let ?raw1 = "''Blackfire-Response: blackfire_yml=true&x=1\<newline>Blackfire-Const: A\<newline>Blackfire-Fn-Args: foo 0\<newline>''"
  let ?raw2 = "''Blackfire-Response: ok=1\<newline>Blackfire-Fn-Args: bar 1,2\<newline>Blackfire-Timespan: =baz\<newline>\<newline>''"
  let ?hello = "''Blackfire-Query: c&signature=s&a=1\<newline>Blackfire-Probe: python-50923504, config, blackfire_yml\<newline>\<newline>''"
  let ?yml = "''blackfire-yaml-size: 8\<newline>\<newline>tests: 1''"
  let ?self = "\<lparr>sock = \<lparr>inbound = [Data ?raw1, Data ?raw2], send_faults = [], outbound = []\<rparr>,
      agent_response = None\<rparr>"
  let ?s1 = "\<lparr>inbound = [Data ?raw1, Data ?raw2], send_faults = [], outbound = [?hello]\<rparr>"
  let ?s2 = "\<lparr>inbound = [Data ?raw2], send_faults = [], outbound = [?hello]\<rparr>"
  let ?s3 = "\<lparr>inbound = [Data ?raw2], send_faults = [], outbound = [?hello, ?yml]\<rparr>"
  let ?s4 = "\<lparr>inbound = [], send_faults = [], outbound = [?hello, ?yml]\<rparr>"
  let ?d1 = "[(''blackfire_yml'', ''true''), (''x'', ''1'')]"
  let ?r1 = "\<lparr>status_code = OK, status_val = Some ''blackfire_yml=true&x=1'',
         status_val_dict = Some ?d1,
         raw_data = Some ''Blackfire-Response: blackfire_yml=true&x=1\<newline>Blackfire-Const: A\<newline>Blackfire-Fn-Args: foo 0'',
         args = [(''Blackfire-Const'', [''A'']), (''Blackfire-Fn-Args'', [''foo 0''])]\<rparr>"
  let ?r2 = "\<lparr>status_code = OK, status_val = Some ''ok=1'',
         status_val_dict = Some [(''ok'', ''1'')],
         raw_data = Some ''Blackfire-Response: ok=1\<newline>Blackfire-Fn-Args: bar 1,2\<newline>Blackfire-Timespan: =baz'',
         args = [(''Blackfire-Fn-Args'', [''bar 1,2'']), (''Blackfire-Timespan'', [''=baz''])]\<rparr>"
  let ?merged = "[(''Blackfire-Const'', [''A'']), (''Blackfire-Fn-Args'', [''bar 1,2'']),
        (''Blackfire-Timespan'', [''=baz''])]"
  have n: "str_nat 50923504 = ''50923504''"
    by (simp add: str_nat.simps char_of_def bit_Suc_0_iff)
  have f1: "py_int ''1'' = Inr 1" by code_simp
  have f0: "py_int ''0'' = Inr 0" by code_simp
  have h1: "probe_header ?cfg ?env = Inr (''python-50923504, config, blackfire_yml'', Some ''tests: 1'')"
    by (simp add: probe_header_def flag_def dict_get_def f1 f0 n)
  have hh: "hello_headers ?cfg ?env ''python-50923504, config, blackfire_yml'' =
      [(''Blackfire-Query'', ''c&signature=s&a=1''),
       (''Blackfire-Probe'', ''python-50923504, config, blackfire_yml'')]"
    by (simp add: hello_headers_def)
  have b1: "BlackfireRequest_to_bytes
      (BlackfireRequest (hello_headers ?cfg ?env ''python-50923504, config, blackfire_yml'') None)
      = ?hello"
    by (simp only: hh) code_simp
  have h2: "send (BlackfireRequest_to_bytes
           (BlackfireRequest (hello_headers ?cfg ?env ''python-50923504, config, blackfire_yml'') None))
           (sock ?self) = (None, ?s1)"
    by (simp only: b1) (simp add: send_one_chunk MAX_SEND_SIZE_def sendall_def)
  have h3: "recv ?s1 = Some (Inr ?raw1, ?s2)" by code_simp
  have h4: "BlackfireResponse_from_bytes parse_qsl BlackfireResponse ?raw1 = (?r1, None)"
    by code_simp
  have h5: "status_code ?r1 = OK" by simp
  have h6: "status_val_dict ?r1 = Some ?d1" by simp
  have h7: "dict_get ?d1 ''blackfire_yml'' = Some ''true''" by code_simp
  have b2: "BlackfireRequest_to_bytes
      (BlackfireRequest [(''Blackfire-Yaml-Size'', str_nat (length ''tests: 1''))]
         (Some ''tests: 1'')) = ?yml"
    by code_simp
  have h8: "send (BlackfireRequest_to_bytes
           (BlackfireRequest [(''Blackfire-Yaml-Size'', str_nat (length ''tests: 1''))]
              (Some ''tests: 1''))) ?s2 = (None, ?s3)"
    by (simp only: b2) (simp add: send_one_chunk MAX_SEND_SIZE_def sendall_def)
  have h9: "recv ?s3 = Some (Inr ?raw2, ?s4)" by code_simp
  have h10: "BlackfireResponse_from_bytes parse_qsl BlackfireResponse ?raw2 = (?r2, None)"
    by code_simp
  have h11: "status_code ?r2 = OK" by simp
  have m: "dict_update (args ?r1) (args ?r2) = ?merged" by code_simp
  have w: "write_prolog parse_qsl ?cfg ?env ?self =
      Some (?self\<lparr>sock := ?s4,
                 agent_response := Some (?r1\<lparr>args := dict_update (args ?r1) (args ?r2)\<rparr>)\<rparr>, None)"
    by (rule handshake_merges_second_response
          [OF h1 h2 h3 h4 h5 h6 h7 h8 h9 h10 h11, THEN conjunct1])
  have u: "?self\<lparr>sock := ?s4, agent_response := Some (?r1\<lparr>args := ?merged\<rparr>)\<rparr>
      = \<lparr>sock = ?s4, agent_response = Some (?r1\<lparr>args := ?merged\<rparr>)\<rparr>"
    by simp
  have a: "write_prolog parse_qsl ?cfg ?env ?self =
      Some (\<lparr>sock = ?s4, agent_response = Some (?r1\<lparr>args := ?merged\<rparr>)\<rparr>, None)"
    using w by (simp only: m u)
  have b: "get_instrumented_funcs FN_ARGS_KEY ?merged = Inr [(''bar'', [IntArg 1, IntArg 2])]"
    by code_simp
  have c: "get_constants CONSTANTS_KEY ?merged = [''A'']" by code_simp
  have d: "get_timespan_selectors TIMESPAN_KEY ?merged = Inr ({}, {''baz''})" by code_simp
  from a b c d show ?thesis by simp
qed

end
